theory Spec2Isabelle
  imports Main
begin

unbundle bit_operations_syntax

chapter \<open>The compiler abstraction of \<^verbatim>\<open>lib/spack/spack/compiler.py\<close>\<close>

text \<open>
  A shallow embedding of the flag tokenizer, the link-line parser, the environment scope,
  the \<^verbatim>\<open>Compiler\<close> value object and the persistent compiler cache.  Python strings are
  \<^typ>\<open>string\<close>: a character stands for a code point below 256.  Exceptions are values of
  the type \<open>error\<close>, and a function that may raise returns a sum with the error on the left.
  What the module reaches outside itself (the file system, the child processes, the module
  command, the version classes) is a parameter of the function that uses it; a helper of the
  repository that is not among the sources and that a claim speaks about is a definition
  marked as modelled from the specification.  The standard library (\<^verbatim>\<open>str\<close>, \<^verbatim>\<open>re\<close>, \<^verbatim>\<open>json\<close>,
  \<^verbatim>\<open>hashlib\<close>, \<^verbatim>\<open>posixpath\<close>) is modelled as far as the module uses it.
\<close>

section \<open>Python string primitives\<close>

text \<open>\<^verbatim>\<open>str.isspace\<close> on the code points below 256.\<close>

definition isspace :: "char \<Rightarrow> bool" where
  "isspace c = (c \<in> set [CHR 0x09, CHR 0x0A, CHR 0x0B, CHR 0x0C, CHR 0x0D,
                           CHR 0x1C, CHR 0x1D, CHR 0x1E, CHR 0x1F, CHR 0x20, CHR 0x85, CHR 0xA0])"

text \<open>\<^verbatim>\<open>str.split()\<close> with no separator: the maximal runs of non-whitespace, in order.
  The first argument is the word being collected.\<close>

fun split_from :: "string \<Rightarrow> string \<Rightarrow> string list" where
  "split_from w [] = (if w = [] then [] else [w])"
| "split_from w (c # cs) =
     (if isspace c then (if w = [] then split_from [] cs else w # split_from [] cs)
      else split_from (w @ [c]) cs)"

definition py_split :: "string \<Rightarrow> string list" where
  "py_split s = split_from [] s"

text \<open>\<^verbatim>\<open>s.startswith(p)\<close>.\<close>

definition startswith :: "string \<Rightarrow> string \<Rightarrow> bool" where
  "startswith s p = (take (length p) s = p)"

text \<open>\<^verbatim>\<open>sep.join(ws)\<close>, and \<^verbatim>\<open>" ".join(ws)\<close>.\<close>

fun join_with :: "string \<Rightarrow> string list \<Rightarrow> string" where
  "join_with sep [] = []"
| "join_with sep [w] = w"
| "join_with sep (w # v # ws) = w @ sep @ join_with sep (v # ws)"

definition join_sp :: "string list \<Rightarrow> string" where
  "join_sp ws = join_with '' '' ws"

text \<open>\<^verbatim>\<open>str.splitlines()\<close>: a line ends at LF, CR, CR LF, VT, FF, FS, GS, RS or NEL; the
  line ends are dropped and a final line end opens no further line.\<close>

definition is_linebreak :: "char \<Rightarrow> bool" where
  "is_linebreak c = (c \<in> set [CHR 0x0A, CHR 0x0B, CHR 0x0C, CHR 0x0D,
                               CHR 0x1C, CHR 0x1D, CHR 0x1E, CHR 0x85])"

fun splitlines_from :: "string \<Rightarrow> string \<Rightarrow> string list" where
  "splitlines_from cur [] = (if cur = [] then [] else [cur])"
| "splitlines_from cur [c] = (if is_linebreak c then [cur] else [cur @ [c]])"
| "splitlines_from cur (c # d # cs) =
     (if c = CHR 0x0D \<and> d = CHR 0x0A then cur # splitlines_from [] cs
      else if is_linebreak c then cur # splitlines_from [] (d # cs)
      else splitlines_from (cur @ [c]) (d # cs))"

definition splitlines :: "string \<Rightarrow> string list" where
  "splitlines s = splitlines_from [] s"

section \<open>The flag tokenizer\<close>

text \<open>The loop of \<^verbatim>\<open>tokenize_flags\<close>: \<open>flag\<close> is the token being built,
  \<open>acc\<close> is \<^verbatim>\<open>flags_with_propagation\<close>.\<close>

fun tokenize_loop ::
  "string \<Rightarrow> (string \<times> bool) list \<Rightarrow> bool \<Rightarrow> string list \<Rightarrow> (string \<times> bool) list" where
  "tokenize_loop flag acc propagate [] = acc @ [(flag, propagate)]"
| "tokenize_loop flag acc propagate (token # tokens) =
     (if \<not> startswith token ''-'' then tokenize_loop (flag @ '' '' @ token) acc propagate tokens
      else tokenize_loop token (acc @ [(flag, propagate)]) propagate tokens)"

definition tokenize_flags :: "string \<Rightarrow> bool \<Rightarrow> (string \<times> bool) list" where
  "tokenize_flags flags_values propagate =
     (case py_split flags_values of
        [] \<Rightarrow> []
      | flag # tokens \<Rightarrow> tokenize_loop flag [] propagate tokens)"

text \<open>The specification's wording of the same grouping, for comparison with the loop: a word
  opens a group, and the words after it that do not start with \<^verbatim>\<open>-\<close> belong to that group;
  the next word that starts with \<^verbatim>\<open>-\<close> opens the next group.\<close>

definition is_flag :: "string \<Rightarrow> bool" where
  "is_flag t = startswith t ''-''"

function flag_groups :: "string list \<Rightarrow> string list list" where
  "flag_groups [] = []"
| "flag_groups (w # ws) =
     (w # takeWhile (\<lambda>t. \<not> is_flag t) ws) # flag_groups (dropWhile (\<lambda>t. \<not> is_flag t) ws)"
  by pat_completeness auto
termination
  by (relation "measure length") (auto simp: less_Suc_eq_le length_dropWhile_le)

definition is_word :: "string \<Rightarrow> bool" where
  "is_word w = (w \<noteq> [] \<and> list_all (\<lambda>c. \<not> isspace c) w)"

section \<open>The regular expressions of the link-line parser\<close>

text \<open>
  The four patterns of the module use literals, character classes, \<^verbatim>\<open>.\<close>, \<^verbatim>\<open>^\<close>, \<^verbatim>\<open>$\<close>,
  alternation, \<^verbatim>\<open>?\<close>, and \<^verbatim>\<open>*\<close> and \<^verbatim>\<open>+\<close> over a single character class.  A matcher state is
  the number of characters consumed and the rest of the subject; \<open>rmatch\<close> lists the states a
  backtracking matcher reaches, in the order in which Python's \<^verbatim>\<open>re\<close> tries them (the left
  alternative first, greedy repetition).
\<close>

datatype cls = CDot | CChr char | COneOf string | CNoneOf string

fun cls_match :: "cls \<Rightarrow> char \<Rightarrow> bool" where
  "cls_match CDot c = (c \<noteq> CHR 0x0A)"
| "cls_match (CChr d) c = (c = d)"
| "cls_match (COneOf cs) c = (c \<in> set cs)"
| "cls_match (CNoneOf cs) c = (c \<notin> set cs)"

datatype regex =
    REps
  | RBol
  | REol
  | RAtom cls
  | RStar cls
  | RPlus cls
  | RSeq regex regex
  | RAlt regex regex
  | ROpt regex

type_synonym rstate = "nat \<times> string"

fun star_states :: "cls \<Rightarrow> rstate \<Rightarrow> rstate list" where
  "star_states k (n, []) = [(n, [])]"
| "star_states k (n, c # cs) =
     (if cls_match k c then star_states k (Suc n, cs) else []) @ [(n, c # cs)]"

fun atom_states :: "cls \<Rightarrow> rstate \<Rightarrow> rstate list" where
  "atom_states k (n, []) = []"
| "atom_states k (n, c # cs) = (if cls_match k c then [(Suc n, cs)] else [])"

fun rmatch :: "regex \<Rightarrow> rstate \<Rightarrow> rstate list" where
  "rmatch REps st = [st]"
| "rmatch RBol st = (if fst st = 0 then [st] else [])"
| "rmatch REol st = (if snd st = [] \<or> snd st = [CHR 0x0A] then [st] else [])"
| "rmatch (RAtom k) st = atom_states k st"
| "rmatch (RStar k) st = star_states k st"
| "rmatch (RPlus k) st = concat (map (star_states k) (atom_states k st))"
| "rmatch (RSeq r1 r2) st = concat (map (rmatch r2) (rmatch r1 st))"
| "rmatch (RAlt r1 r2) st = rmatch r1 st @ rmatch r2 st"
| "rmatch (ROpt r) st = rmatch r st @ [st]"

text \<open>A literal string, and a sequence of patterns.\<close>

fun lit :: "string \<Rightarrow> regex" where
  "lit [] = REps"
| "lit (c # cs) = RSeq (RAtom (CChr c)) (lit cs)"

fun rseq :: "regex list \<Rightarrow> regex" where
  "rseq [] = REps"
| "rseq (r # rs) = RSeq r (rseq rs)"

fun ralt :: "regex list \<Rightarrow> regex" where
  "ralt [] = RAtom (COneOf [])"
| "ralt [r] = r"
| "ralt (r # q # rs) = RAlt r (ralt (q # rs))"

text \<open>\<^verbatim>\<open>pattern.match(s)\<close> as a truth value: the pattern matches at the start of \<open>s\<close>.\<close>

definition re_match :: "regex \<Rightarrow> string \<Rightarrow> bool" where
  "re_match r s = (rmatch r (0, s) \<noteq> [])"

text \<open>\<^verbatim>\<open>pattern.match(s).group("dir")\<close> for a pattern \<open>pre\<close> followed by the group \<open>grp\<close> that
  ends the pattern: the first state after \<open>pre\<close> from which \<open>grp\<close> matches starts the group, and
  the group is what the first match of \<open>grp\<close> consumes from there.  \<open>None\<close> is no match.\<close>

definition re_group :: "regex \<Rightarrow> regex \<Rightarrow> string \<Rightarrow> string option" where
  "re_group pre grp s =
     (case filter (\<lambda>st. rmatch grp st \<noteq> []) (rmatch pre (0, s)) of
        [] \<Rightarrow> None
      | st # _ \<Rightarrow> Some (take (fst (hd (rmatch grp st)) - fst st) (snd st)))"

text \<open>What a greedy \<^verbatim>\<open>.*\<close> consumes: everything up to the first line feed.\<close>

definition dot_prefix :: "string \<Rightarrow> string" where
  "dot_prefix s = takeWhile (\<lambda>c. c \<noteq> CHR 0x0A) s"

text \<open>The path separators \<^verbatim>\<open>/\<close> and \<^verbatim>\<open>\\<close> of the classes \<^verbatim>\<open>[/\\]\<close> and \<^verbatim>\<open>[^/\\]\<close>.\<close>

definition seps :: string where
  "seps = [CHR ''/'', CHR 0x5C]"

text \<open>\<^verbatim>\<open>_LINKER_LINE = ^( *|.*[/\\])(link|ld|([^/\\]+-)?ld|collect2)[^/\\]*( |$)\<close>\<close>

definition LINKER_LINE :: regex where
  "LINKER_LINE = rseq [
     RBol,
     RAlt (RStar (CChr CHR '' '')) (RSeq (RStar CDot) (RAtom (COneOf seps))),
     ralt [lit ''link'', lit ''ld'',
           RSeq (ROpt (RSeq (RPlus (CNoneOf seps)) (RAtom (CChr CHR ''-'')))) (lit ''ld''),
           lit ''collect2''],
     RStar (CNoneOf seps),
     RAlt (RAtom (CChr CHR '' '')) REol]"

text \<open>\<^verbatim>\<open>_LINKER_LINE_IGNORE = (collect2 version|^[A-Za-z0-9_]+=|/ldfe )\<close>\<close>

definition word_chars :: string where
  "word_chars = ''ABCDEFGHIJKLMNOPQRSTUVWXYZabcdefghijklmnopqrstuvwxyz0123456789_''"

definition LINKER_LINE_IGNORE :: regex where
  "LINKER_LINE_IGNORE = ralt [
     lit ''collect2 version'',
     rseq [RBol, RPlus (COneOf word_chars), RAtom (CChr CHR ''='')],
     lit ''/ldfe '']"

text \<open>\<^verbatim>\<open>_LINK_DIR_ARG = ^-L(.:)?(?P<dir>[/\\].*)\<close>, read for its group \<^verbatim>\<open>dir\<close>.\<close>

definition LINK_DIR_ARG :: "string \<Rightarrow> string option" where
  "LINK_DIR_ARG =
     re_group (rseq [RBol, lit ''-L'', ROpt (RSeq (RAtom CDot) (RAtom (CChr CHR '':'')))])
              (RSeq (RAtom (COneOf seps)) (RStar CDot))"

text \<open>\<^verbatim>\<open>_LIBPATH_ARG = ^[-/](LIBPATH|libpath):(?P<dir>.*)\<close>, read for its group \<^verbatim>\<open>dir\<close>.\<close>

definition LIBPATH_ARG :: "string \<Rightarrow> string option" where
  "LIBPATH_ARG =
     re_group (rseq [RBol, RAtom (COneOf ''-/''), RAlt (lit ''LIBPATH'') (lit ''libpath''),
                     RAtom (CChr CHR '':'')])
              (RStar CDot)"

section \<open>The link-line parser\<close>

text \<open>The inner loop of \<^verbatim>\<open>_parse_link_paths\<close> over the words of an accepted linker line;
  the flag is \<^verbatim>\<open>next_arg\<close>, the result is what the loop appends to \<^verbatim>\<open>raw_link_dirs\<close>.\<close>

fun opt_list :: "'a option \<Rightarrow> 'a list" where
  "opt_list None = []"
| "opt_list (Some x) = [x]"

fun scan_args :: "bool \<Rightarrow> string list \<Rightarrow> string list" where
  "scan_args next_arg [] = []"
| "scan_args next_arg (arg # args) =
     (if arg = ''-L'' \<or> arg = ''-Y'' then scan_args True args
      else if next_arg then arg # scan_args False args
      else opt_list (LINK_DIR_ARG arg) @ opt_list (LIBPATH_ARG arg) @ scan_args False args)"

text \<open>What one line contributes once it has passed the block test: nothing unless
  \<^verbatim>\<open>_LINKER_LINE\<close> matches and \<^verbatim>\<open>_LINKER_LINE_IGNORE\<close> does not.\<close>

definition link_line_dirs :: "string \<Rightarrow> string list" where
  "link_line_dirs line =
     (if \<not> re_match LINKER_LINE line then []
      else if re_match LINKER_LINE_IGNORE line then []
      else scan_args False (py_split line))"

text \<open>The outer loop over the lines; the flag is \<^verbatim>\<open>lib_search_paths\<close>.\<close>

fun scan_lines :: "bool \<Rightarrow> string list \<Rightarrow> string list" where
  "scan_lines lib_search_paths [] = []"
| "scan_lines lib_search_paths (line # rest) =
     (if lib_search_paths then
        (if startswith line [CHR 0x09] then drop 1 line # scan_lines True rest
         else link_line_dirs line @ scan_lines False rest)
      else if startswith line ''Library search paths:'' then
        link_line_dirs line @ scan_lines True rest
      else link_line_dirs line @ scan_lines False rest)"

definition raw_link_dirs :: "string \<Rightarrow> string list" where
  "raw_link_dirs string = scan_lines False (splitlines string)"

text \<open>The last loop: \<open>visited\<close> is the set of normalized paths seen so far.\<close>

fun dedup_from :: "string list \<Rightarrow> string list \<Rightarrow> string list" where
  "dedup_from visited [] = []"
| "dedup_from visited (normalized_path # rest) =
     (if normalized_path \<notin> set visited
      then normalized_path # dedup_from (normalized_path # visited) rest
      else dedup_from visited rest)"

text \<open>\<^verbatim>\<open>_parse_link_paths\<close>.  \<^verbatim>\<open>os.path.abspath\<close> depends on the platform and on the working
  directory and is the parameter \<open>abspath\<close>.\<close>

definition parse_link_paths :: "(string \<Rightarrow> string) \<Rightarrow> string \<Rightarrow> string list" where
  "parse_link_paths abspath string = dedup_from [] (map abspath (raw_link_dirs string))"

text \<open>The POSIX \<^verbatim>\<open>os.path.abspath\<close> for a working directory \<open>cwd\<close>, used where a concrete
  normalization is evaluated: \<^verbatim>\<open>posixpath.normpath\<close> of the path joined to \<open>cwd\<close> unless it
  is absolute.\<close>

fun split_on :: "char \<Rightarrow> string \<Rightarrow> string list" where
  "split_on d [] = [[]]"
| "split_on d (c # cs) =
     (if c = d then [] # split_on d cs
      else (case split_on d cs of [] \<Rightarrow> [[c]] | w # ws \<Rightarrow> (c # w) # ws))"

fun norm_comps :: "bool \<Rightarrow> string list \<Rightarrow> string list \<Rightarrow> string list" where
  "norm_comps initial_slashes new_comps [] = new_comps"
| "norm_comps initial_slashes new_comps (part # comps) =
     (if part = [] \<or> part = ''.'' then norm_comps initial_slashes new_comps comps
      else if part \<noteq> ''..'' \<or> (\<not> initial_slashes \<and> new_comps = [])
              \<or> (new_comps \<noteq> [] \<and> last new_comps = ''..'')
        then norm_comps initial_slashes (new_comps @ [part]) comps
      else if new_comps \<noteq> [] then norm_comps initial_slashes (butlast new_comps) comps
      else norm_comps initial_slashes new_comps comps)"

definition posix_normpath :: "string \<Rightarrow> string" where
  "posix_normpath path =
     (if path = [] then ''.''
      else
        let initial_slashes =
              (if \<not> startswith path ''/'' then 0
               else if startswith path ''//'' \<and> \<not> startswith path ''///'' then 2
               else (1 :: nat));
            comps = norm_comps (initial_slashes \<noteq> 0) [] (split_on CHR ''/'' path);
            p = replicate initial_slashes CHR ''/'' @ join_with ''/'' comps
        in if p = [] then ''.'' else p)"

definition posix_abspath :: "string \<Rightarrow> string \<Rightarrow> string" where
  "posix_abspath cwd path =
     posix_normpath
       (if startswith path ''/'' then path
        else if cwd = [] \<or> last cwd = CHR ''/'' then cwd @ path
        else cwd @ ''/'' @ path)"

section \<open>The filter for system directories\<close>

text \<open>Modelled from the spec: \<^verbatim>\<open>path_contains_subdirectory\<close> of \<^verbatim>\<open>llnl.util.filesystem\<close> is
  not among the sources.  Section 4.4: a directory is dropped when it is nested under a
  canonical root, by subdirectory containment and not by exact match; the roots are written
  with their closing \<^verbatim>\<open>/\<close>.\<close>

definition path_contains_subdirectory :: "string \<Rightarrow> string \<Rightarrow> bool" where
  "path_contains_subdirectory path root = (startswith path root \<and> path \<noteq> root)"

text \<open>Modelled from the spec: \<^verbatim>\<open>filter_system_paths\<close> of \<^verbatim>\<open>spack.util.environment\<close> is not
  among the sources.  Section 4.4: it drops the directories that are exact matches of known
  system library directories; the list of those is the parameter \<open>system_dirs\<close>.\<close>

definition filter_system_paths :: "string list \<Rightarrow> string list \<Rightarrow> string list" where
  "filter_system_paths system_dirs paths = filter (\<lambda>p. p \<notin> set system_dirs) paths"

definition system_subdirectory_roots :: "string list" where
  "system_subdirectory_roots =
     [''/lib/'', ''/lib64/'', ''/usr/lib/'', ''/usr/lib64/'', ''/usr/local/lib/'', ''/usr/local/lib64/'']"

definition in_system_subdirectory :: "string \<Rightarrow> bool" where
  "in_system_subdirectory path =
     list_ex (\<lambda>x. path_contains_subdirectory path x) system_subdirectory_roots"

text \<open>The three filters of \<^verbatim>\<open>_parse_non_system_link_dirs\<close>; \<^verbatim>\<open>os.path.isdir\<close> is the
  parameter \<open>isdir\<close>.\<close>

definition non_system_link_dirs ::
  "(string \<Rightarrow> bool) \<Rightarrow> string list \<Rightarrow> string list \<Rightarrow> string list" where
  "non_system_link_dirs isdir system_dirs link_dirs =
     filter (\<lambda>p. \<not> in_system_subdirectory p)
       (filter_system_paths system_dirs (filter isdir link_dirs))"

definition parse_non_system_link_dirs ::
  "(string \<Rightarrow> string) \<Rightarrow> (string \<Rightarrow> bool) \<Rightarrow> string list \<Rightarrow> string \<Rightarrow> string list" where
  "parse_non_system_link_dirs abspath isdir system_dirs string =
     non_system_link_dirs isdir system_dirs (parse_link_paths abspath string)"

section \<open>JSON values and \<^verbatim>\<open>json.dumps\<close>\<close>

text \<open>
  The values that \<^verbatim>\<open>json.loads\<close> returns and \<^verbatim>\<open>json.dumps\<close> accepts: \<^verbatim>\<open>None\<close>, booleans, integers,
  strings, lists, and dictionaries with string keys.  A dictionary is the list of its items in
  insertion order.  Floats are left out.
\<close>

datatype json =
    JNull
  | JBool bool
  | JNum int
  | JStr string
  | JArr "json list"
  | JObj "(string \<times> json) list"

text \<open>Python's \<^verbatim>\<open>==\<close> on these values: \<^verbatim>\<open>True == 1\<close> and \<^verbatim>\<open>False == 0\<close>, lists are compared item
  by item, and dictionaries by their keys and the values under them, whatever the order of
  insertion.\<close>

fun py_eq :: "json \<Rightarrow> json \<Rightarrow> bool" where
  "py_eq JNull JNull = True"
| "py_eq (JBool a) (JBool b) = (a = b)"
| "py_eq (JBool a) (JNum n) = (n = (if a then 1 else 0))"
| "py_eq (JNum m) (JBool b) = (m = (if b then 1 else 0))"
| "py_eq (JNum m) (JNum n) = (m = n)"
| "py_eq (JStr s) (JStr t) = (s = t)"
| "py_eq (JArr xs) (JArr ys) = list_all2 py_eq xs ys"
| "py_eq (JObj d) (JObj e) =
     (length d = length e
      \<and> list_all (\<lambda>kv. case map_of e (fst kv) of None \<Rightarrow> False | Some w \<Rightarrow> py_eq (snd kv) w) d)"
| "py_eq _ _ = False"

text \<open>Python's truth test, as in \<^verbatim>\<open>not x\<close> and \<^verbatim>\<open>x or y\<close>.\<close>

fun truthy :: "json \<Rightarrow> bool" where
  "truthy JNull = False"
| "truthy (JBool b) = b"
| "truthy (JNum n) = (n \<noteq> 0)"
| "truthy (JStr s) = (s \<noteq> [])"
| "truthy (JArr xs) = (xs \<noteq> [])"
| "truthy (JObj d) = (d \<noteq> [])"

text \<open>String literals as \<^verbatim>\<open>json.dumps\<close> writes them with \<^verbatim>\<open>ensure_ascii\<close>: the quote, the
  backslash and the control characters with short names are escaped by name, every other
  character outside \<^verbatim>\<open>' '..'~'\<close> as \<^verbatim>\<open>\u00XX\<close>.\<close>

definition hexdigit :: "nat \<Rightarrow> char" where
  "hexdigit n = ''0123456789abcdef'' ! n"

definition esc_char :: "char \<Rightarrow> string" where
  "esc_char c =
     (if c = CHR 0x22 then [CHR 0x5C, CHR 0x22]
      else if c = CHR 0x5C then [CHR 0x5C, CHR 0x5C]
      else if c = CHR 0x08 then [CHR 0x5C, CHR ''b'']
      else if c = CHR 0x0C then [CHR 0x5C, CHR ''f'']
      else if c = CHR 0x0A then [CHR 0x5C, CHR ''n'']
      else if c = CHR 0x0D then [CHR 0x5C, CHR ''r'']
      else if c = CHR 0x09 then [CHR 0x5C, CHR ''t'']
      else if of_char c < (0x20 :: nat) \<or> (0x7E :: nat) < of_char c
        then [CHR 0x5C, CHR ''u'', CHR ''0'', CHR ''0'',
              hexdigit (of_char c div 16), hexdigit (of_char c mod 16)]
      else [c])"

definition quote :: "string \<Rightarrow> string" where
  "quote s = [CHR 0x22] @ concat (map esc_char s) @ [CHR 0x22]"

function show_nat :: "nat \<Rightarrow> string" where
  "show_nat n = (if n < 10 then [hexdigit n] else show_nat (n div 10) @ [hexdigit (n mod 10)])"
  by pat_completeness auto
termination
  by (relation "measure id") auto

definition show_int :: "int \<Rightarrow> string" where
  "show_int i = (if i < 0 then ''-'' @ show_nat (nat (- i)) else show_nat (nat i))"

text \<open>\<^verbatim>\<open>json.dumps(v, separators=(",", ":"))\<close>.\<close>

fun dumps :: "json \<Rightarrow> string" where
  "dumps JNull = ''null''"
| "dumps (JBool b) = (if b then ''true'' else ''false'')"
| "dumps (JNum n) = show_int n"
| "dumps (JStr s) = quote s"
| "dumps (JArr xs) = ''['' @ join_with '','' (map dumps xs) @ '']''"
| "dumps (JObj d) =
     ''{'' @ join_with '','' (map (\<lambda>kv. quote (fst kv) @ '':'' @ dumps (snd kv)) d) @ ''}''"

text \<open>Dictionary access on the item list: \<^verbatim>\<open>d[k]\<close> and \<^verbatim>\<open>d.get(k)\<close> are \<^term>\<open>map_of\<close>;
  \<^verbatim>\<open>d[k] = v\<close> replaces the value in place or appends a new item; \<^verbatim>\<open>del d[k]\<close> removes it.\<close>

fun dict_set :: "(string \<times> json) list \<Rightarrow> string \<Rightarrow> json \<Rightarrow> (string \<times> json) list" where
  "dict_set [] k v = [(k, v)]"
| "dict_set ((k', v') # d) k v = (if k' = k then (k, v) # d else (k', v') # dict_set d k v)"

definition dict_del :: "(string \<times> json) list \<Rightarrow> string \<Rightarrow> (string \<times> json) list" where
  "dict_del d k = filter (\<lambda>kv. fst kv \<noteq> k) d"

section \<open>SHA-256\<close>

text \<open>
  \<^verbatim>\<open>hashlib.sha256(bytes).hexdigest()\<close>, after FIPS 180-4.  A 32-bit word is an \<^typ>\<open>int\<close> in
  \<open>0 ..< 2 ^ 32\<close>; addition wraps by \<^term>\<open>take_bit 32\<close> and a rotation is reduced the same way.
\<close>

definition add32 :: "int \<Rightarrow> int \<Rightarrow> int" where
  "add32 x y = take_bit 32 (x + y)"

definition rotr :: "nat \<Rightarrow> int \<Rightarrow> int" where
  "rotr n x = drop_bit n x OR take_bit 32 (push_bit (32 - n) x)"

definition not32 :: "int \<Rightarrow> int" where
  "not32 x = x XOR 4294967295"

definition Ch :: "int \<Rightarrow> int \<Rightarrow> int \<Rightarrow> int" where
  "Ch x y z = (x AND y) XOR (not32 x AND z)"

definition Maj :: "int \<Rightarrow> int \<Rightarrow> int \<Rightarrow> int" where
  "Maj x y z = (x AND y) XOR (x AND z) XOR (y AND z)"

definition bsig0 :: "int \<Rightarrow> int" where
  "bsig0 x = rotr 2 x XOR rotr 13 x XOR rotr 22 x"

definition bsig1 :: "int \<Rightarrow> int" where
  "bsig1 x = rotr 6 x XOR rotr 11 x XOR rotr 25 x"

definition ssig0 :: "int \<Rightarrow> int" where
  "ssig0 x = rotr 7 x XOR rotr 18 x XOR drop_bit 3 x"

definition ssig1 :: "int \<Rightarrow> int" where
  "ssig1 x = rotr 17 x XOR rotr 19 x XOR drop_bit 10 x"

text \<open>The round constants \<open>K\<^sub>0 .. K\<^sub>6\<^sub>3\<close> in decimal, four to a row, with the hexadecimal form of
  the standard beside each row.\<close>

definition K256 :: "int list" where
  "K256 =
    [
     1116352408, 1899447441, 3049323471, 3921009573,   \<comment> \<open>428a2f98 71374491 b5c0fbcf e9b5dba5\<close>
     961987163, 1508970993, 2453635748, 2870763221,   \<comment> \<open>3956c25b 59f111f1 923f82a4 ab1c5ed5\<close>
     3624381080, 310598401, 607225278, 1426881987,   \<comment> \<open>d807aa98 12835b01 243185be 550c7dc3\<close>
     1925078388, 2162078206, 2614888103, 3248222580,   \<comment> \<open>72be5d74 80deb1fe 9bdc06a7 c19bf174\<close>
     3835390401, 4022224774, 264347078, 604807628,   \<comment> \<open>e49b69c1 efbe4786 0fc19dc6 240ca1cc\<close>
     770255983, 1249150122, 1555081692, 1996064986,   \<comment> \<open>2de92c6f 4a7484aa 5cb0a9dc 76f988da\<close>
     2554220882, 2821834349, 2952996808, 3210313671,   \<comment> \<open>983e5152 a831c66d b00327c8 bf597fc7\<close>
     3336571891, 3584528711, 113926993, 338241895,   \<comment> \<open>c6e00bf3 d5a79147 06ca6351 14292967\<close>
     666307205, 773529912, 1294757372, 1396182291,   \<comment> \<open>27b70a85 2e1b2138 4d2c6dfc 53380d13\<close>
     1695183700, 1986661051, 2177026350, 2456956037,   \<comment> \<open>650a7354 766a0abb 81c2c92e 92722c85\<close>
     2730485921, 2820302411, 3259730800, 3345764771,   \<comment> \<open>a2bfe8a1 a81a664b c24b8b70 c76c51a3\<close>
     3516065817, 3600352804, 4094571909, 275423344,   \<comment> \<open>d192e819 d6990624 f40e3585 106aa070\<close>
     430227734, 506948616, 659060556, 883997877,   \<comment> \<open>19a4c116 1e376c08 2748774c 34b0bcb5\<close>
     958139571, 1322822218, 1537002063, 1747873779,   \<comment> \<open>391c0cb3 4ed8aa4a 5b9cca4f 682e6ff3\<close>
     1955562222, 2024104815, 2227730452, 2361852424,   \<comment> \<open>748f82ee 78a5636f 84c87814 8cc70208\<close>
     2428436474, 2756734187, 3204031479, 3329325298   \<comment> \<open>90befffa a4506ceb bef9a3f7 c67178f2\<close>
    ]"

type_synonym sha_state = "int \<times> int \<times> int \<times> int \<times> int \<times> int \<times> int \<times> int"

definition sha_init :: sha_state where
  "sha_init =
     (1779033703, 3144134277, 1013904242, 2773480762,   \<comment> \<open>6a09e667 bb67ae85 3c6ef372 a54ff53a\<close>
      1359893119, 2600822924, 528734635, 1541459225   \<comment> \<open>510e527f 9b05688c 1f83d9ab 5be0cd19\<close>
     )"

text \<open>The message schedule, newest word first: \<open>W\<^sub>t = \<sigma>\<^sub>1(W\<^sub>t\<^sub>-\<^sub>2) + W\<^sub>t\<^sub>-\<^sub>7 + \<sigma>\<^sub>0(W\<^sub>t\<^sub>-\<^sub>1\<^sub>5) + W\<^sub>t\<^sub>-\<^sub>1\<^sub>6\<close>.\<close>

fun schedule :: "nat \<Rightarrow> int list \<Rightarrow> int list" where
  "schedule 0 ws = ws"
| "schedule (Suc n) ws =
     schedule n (add32 (add32 (ssig1 (ws ! 1)) (ws ! 6)) (add32 (ssig0 (ws ! 14)) (ws ! 15)) # ws)"

fun sha_round :: "int \<Rightarrow> int \<Rightarrow> sha_state \<Rightarrow> sha_state" where
  "sha_round k w (a, b, c, d, e, f, g, h) =
     (let t1 = add32 (add32 h (bsig1 e)) (add32 (add32 (Ch e f g) k) w);
          t2 = add32 (bsig0 a) (Maj a b c)
      in (add32 t1 t2, a, b, c, add32 d t1, e, f, g))"

fun sha_rounds :: "int list \<Rightarrow> int list \<Rightarrow> sha_state \<Rightarrow> sha_state" where
  "sha_rounds (k # ks) (w # ws) st = sha_rounds ks ws (sha_round k w st)"
| "sha_rounds _ _ st = st"

fun add_state :: "sha_state \<Rightarrow> sha_state \<Rightarrow> sha_state" where
  "add_state (a, b, c, d, e, f, g, h) (a', b', c', d', e', f', g', h') =
     (add32 a a', add32 b b', add32 c c', add32 d d',
      add32 e e', add32 f f', add32 g g', add32 h h')"

definition compress :: "sha_state \<Rightarrow> int list \<Rightarrow> sha_state" where
  "compress hs block = add_state hs (sha_rounds K256 (rev (schedule 48 (rev block))) hs)"

text \<open>Padding to a multiple of 64 bytes, big-endian words, blocks of sixteen words.\<close>

fun be_bytes :: "nat \<Rightarrow> nat \<Rightarrow> int list" where
  "be_bytes 0 x = []"
| "be_bytes (Suc n) x = be_bytes n (x div 256) @ [int (x mod 256)]"

definition sha_pad :: "int list \<Rightarrow> int list" where
  "sha_pad m =
     m @ [0x80] @ replicate ((119 - length m mod 64) mod 64) 0 @ be_bytes 8 (8 * length m)"

fun words_of :: "int list \<Rightarrow> int list" where
  "words_of (a # b # c # d # rest) = (((a * 256 + b) * 256 + c) * 256 + d) # words_of rest"
| "words_of _ = []"

function blocks_of :: "int list \<Rightarrow> int list list" where
  "blocks_of ws = (if length ws < 16 then [] else take 16 ws # blocks_of (drop 16 ws))"
  by pat_completeness auto
termination
  by (relation "measure length") auto

definition sha_blocks :: "string \<Rightarrow> int list list" where
  "sha_blocks s = blocks_of (words_of (sha_pad (map of_char s)))"

definition hex32 :: "int \<Rightarrow> string" where
  "hex32 w = map (\<lambda>i. hexdigit (nat ((w div 16 ^ i) mod 16))) (rev [0..<8])"

fun state_hex :: "sha_state \<Rightarrow> string" where
  "state_hex (a, b, c, d, e, f, g, h) =
     hex32 a @ hex32 b @ hex32 c @ hex32 d @ hex32 e @ hex32 f @ hex32 g @ hex32 h"

definition sha256_hexdigest :: "string \<Rightarrow> string" where
  "sha256_hexdigest s = state_hex (foldl compress sha_init (sha_blocks s))"

section \<open>The \<^verbatim>\<open>Compiler\<close> value object\<close>

text \<open>
  The fields that \<^verbatim>\<open>__init__\<close> sets.  \<^verbatim>\<open>spec\<close> is a \<^verbatim>\<open>CompilerSpec\<close> of \<^verbatim>\<open>spack.spec\<close>, which is
  not among the sources: its type is the parameter \<open>'sp\<close>, its \<^verbatim>\<open>==\<close> is equality, and its
  \<^verbatim>\<open>str\<close> is a parameter of the functions that print it.  A path is \<^verbatim>\<open>None\<close> or a string, the
  target likewise (the field \<^verbatim>\<open>alias\<close> is written \<open>alias'\<close>, the plain name being reserved), and \<^verbatim>\<open>environment\<close> is the dictionary of modifications as configured.
\<close>

text \<open>Modelled from the spec: \<^verbatim>\<open>FlagMap\<close> of \<^verbatim>\<open>spack.spec\<close> is not among the sources.
  Section 3: the flags are an ordered mapping from a flag category to an ordered sequence of
  (flag token, propagate) pairs.\<close>

type_synonym flag_map = "(string \<times> (string \<times> bool) list) list"

record 'sp Compiler =
  spec :: 'sp
  operating_system :: string
  target :: "string option"
  modules :: "string list"
  alias' :: "string option"
  environment :: json
  extra_rpaths :: "string list"
  enable_implicit_rpaths :: "bool option"
  cc :: "string option"
  cxx :: "string option"
  f77 :: "string option"
  fc :: "string option"
  flags :: flag_map

text \<open>\<^verbatim>\<open>Compiler.__eq__\<close>.\<close>

definition Compiler_eq :: "'sp Compiler \<Rightarrow> 'sp Compiler \<Rightarrow> bool" where
  "Compiler_eq self other =
     (cc self = cc other
      \<and> cxx self = cxx other
      \<and> fc self = fc other
      \<and> f77 self = f77 other
      \<and> spec self = spec other
      \<and> operating_system self = operating_system other
      \<and> target self = target other
      \<and> flags self = flags other
      \<and> modules self = modules other
      \<and> py_eq (environment self) (environment other)
      \<and> extra_rpaths self = extra_rpaths other
      \<and> enable_implicit_rpaths self = enable_implicit_rpaths other)"

text \<open>\<^verbatim>\<open>str\<close> and the JSON form of an optional string.\<close>

fun str_opt :: "string option \<Rightarrow> string" where
  "str_opt None = ''None''"
| "str_opt (Some s) = s"

fun json_opt :: "string option \<Rightarrow> json" where
  "json_opt None = JNull"
| "json_opt (Some s) = JStr s"

text \<open>\<^verbatim>\<open>Compiler.to_dict\<close>.  No instance of the class has an attribute named after an entry
  of \<^verbatim>\<open>FLAG_INSTANCE_VARS\<close>, so the \<^verbatim>\<open>update\<close> of \<^verbatim>\<open>flags_dict\<close> adds nothing.\<close>

definition to_dict :: "('sp \<Rightarrow> string) \<Rightarrow> 'sp Compiler \<Rightarrow> json" where
  "to_dict str_spec self =
     (let flags_dict = map (\<lambda>(fname, fvals). (fname, JStr (join_sp (map fst fvals)))) (flags self);
          result =
            [(''spec'', JStr (str_spec (spec self))),
             (''paths'', JObj [(''cc'', json_opt (cc self)), (''cxx'', json_opt (cxx self)),
                              (''f77'', json_opt (f77 self)), (''fc'', json_opt (fc self))]),
             (''flags'', JObj flags_dict),
             (''operating_system'', JStr (operating_system self)),
             (''target'', JStr (str_opt (target self))),
             (''modules'', JArr (map JStr (modules self))),
             (''environment'', if truthy (environment self) then environment self else JObj []),
             (''extra_rpaths'', JArr (map JStr (extra_rpaths self)))];
          result = (case enable_implicit_rpaths self of
                      None \<Rightarrow> result
                    | Some b \<Rightarrow> result @ [(''implicit_rpaths'', JBool b)]);
          result = (case alias' self of
                      None \<Rightarrow> result
                    | Some a \<Rightarrow> if a = [] then result else result @ [(''alias'', JStr a)])
      in JObj result)"

text \<open>\<^verbatim>\<open>FileCompilerCache._key\<close>: the text that \<^verbatim>\<open>json.dumps\<close> writes is ASCII, so its UTF-8
  encoding is the text itself.\<close>

definition cache_key :: "('sp \<Rightarrow> string) \<Rightarrow> 'sp Compiler \<Rightarrow> string" where
  "cache_key str_spec compiler = sha256_hexdigest (dumps (to_dict str_spec compiler))"

section \<open>Errors, the process environment and the external collaborators\<close>

datatype error =
    ProcessError string
  | CompilerAccessError string "string list"
  | ValueError string
  | OtherError string

text \<open>\<^verbatim>\<open>os.environ\<close> is a map from names to values.  An operation runs on the environment and
  leaves an environment behind, whether it returns or raises.\<close>

type_synonym environ = "string \<rightharpoonup> string"

type_synonym 'a action = "environ \<Rightarrow> (error + 'a) \<times> environ"

definition environ_clear :: "environ \<Rightarrow> environ" where
  "environ_clear env = Map.empty"

definition environ_update :: "environ \<Rightarrow> environ \<Rightarrow> environ" where
  "environ_update env other = env ++ other"

text \<open>Modelled from the spec: \<^verbatim>\<open>spack.util.executable.Executable\<close> is not among the sources.
  Section 6: \<^verbatim>\<open>run(path, args..., ignorable_exit_codes)\<close> returns the combined output, or raises
  on an unignored nonzero exit or a timeout.  \<open>process_outcome\<close> is what the operating system
  reports for the child process, and \<open>spec_call spawn\<close> is the call of an executable on a host
  whose processes end as \<open>spawn\<close> says.\<close>

datatype process_outcome = Exited int string | TimedOut | NotStarted

definition run_outcome :: "int list \<Rightarrow> process_outcome \<Rightarrow> error + string" where
  "run_outcome ignore_errors r =
     (case r of
        Exited code out \<Rightarrow>
          if code = 0 \<or> code \<in> set ignore_errors then Inr out
          else Inl (ProcessError ''Command exited with non-zero status'')
      | TimedOut \<Rightarrow> Inl (ProcessError ''Command timed out'')
      | NotStarted \<Rightarrow> Inl (ProcessError ''Command could not be started''))"

definition spec_call ::
  "('exe \<Rightarrow> string list \<Rightarrow> environ \<Rightarrow> process_outcome)
     \<Rightarrow> 'exe \<Rightarrow> string list \<Rightarrow> int list \<Rightarrow> environ \<Rightarrow> error + string" where
  "spec_call spawn exe args ignore_errors env = run_outcome ignore_errors (spawn exe args env)"

text \<open>What the module calls outside itself: \<^verbatim>\<open>spack.util.module_cmd.load_module\<close>,
  \<^verbatim>\<open>spack.schema.environment.parse(...).apply_modifications()\<close>, the constructor of
  \<^verbatim>\<open>Executable\<close>, the call of an executable with its arguments and its \<^verbatim>\<open>ignore_errors\<close>
  (with \<^verbatim>\<open>output=str, error=str\<close>: the combined output, or the exception), \<^verbatim>\<open>which_string\<close>,
  \<^verbatim>\<open>os.path.isabs\<close>, \<^verbatim>\<open>os.path.isfile\<close> and \<^verbatim>\<open>os.access(_, os.X_OK)\<close>.\<close>

record 'exe externals =
  load_module :: "string \<Rightarrow> unit action"
  apply_modifications :: "json \<Rightarrow> unit action"
  Executable :: "string option \<Rightarrow> error + 'exe"
  call :: "'exe \<Rightarrow> string list \<Rightarrow> int list \<Rightarrow> environ \<Rightarrow> error + string"
  which_string :: "string \<Rightarrow> environ \<Rightarrow> string option"
  isabs :: "string \<Rightarrow> bool"
  isfile :: "string \<Rightarrow> bool"
  access_x :: "string \<Rightarrow> bool"

section \<open>The environment scope\<close>

text \<open>The loop \<^verbatim>\<open>for module in self.modules: load_module(module)\<close>: it stops at the first
  module whose load raises.\<close>

fun load_modules :: "(string \<Rightarrow> unit action) \<Rightarrow> string list \<Rightarrow> unit action" where
  "load_modules load [] env = (Inr (), env)"
| "load_modules load (m # ms) env =
     (case load m env of
        (Inl e, env') \<Rightarrow> (Inl e, env')
      | (Inr u, env') \<Rightarrow> load_modules load ms env')"

text \<open>What the \<^verbatim>\<open>try\<close> block of \<^verbatim>\<open>compiler_environment\<close> does: the modules, the environment
  modifications, then the body of the \<^verbatim>\<open>with\<close> statement.\<close>

definition scope_body ::
  "'exe externals \<Rightarrow> 'sp Compiler \<Rightarrow> 'a action \<Rightarrow> 'a action" where
  "scope_body ext self body env =
     (case load_modules (load_module ext) (modules self) env of
        (Inl e, env1) \<Rightarrow> (Inl e, env1)
      | (Inr u, env1) \<Rightarrow>
          (case apply_modifications ext (environment self) env1 of
             (Inl e, env2) \<Rightarrow> (Inl e, env2)
           | (Inr u, env2) \<Rightarrow> body env2))"

text \<open>\<^verbatim>\<open>Compiler.compiler_environment\<close>, with the body of the \<^verbatim>\<open>with\<close> statement as an
  argument.  The \<^verbatim>\<open>finally\<close> clause runs on return and on raise alike.\<close>

definition compiler_environment ::
  "'exe externals \<Rightarrow> 'sp Compiler \<Rightarrow> 'a action \<Rightarrow> 'a action" where
  "compiler_environment ext self body env =
     (if modules self = [] \<and> \<not> truthy (environment self) then body env
      else
        let backup_env = env;
            (r, env') = scope_body ext self body env
        in (r, environ_update (environ_clear env') backup_env))"

section \<open>Version resolution and verification of the executables\<close>

text \<open>The class attributes that a compiler family overrides; \<open>version_search\<close> is
  \<^verbatim>\<open>re.search(cls.version_regex, _)\<close> followed by \<^verbatim>\<open>group(1)\<close>, \<open>None\<close> when there is no match.\<close>

record family =
  version_argument :: string
  ignore_version_errors :: "int list"
  version_search :: "string \<Rightarrow> string option"

definition extract_version_from_output :: "family \<Rightarrow> string \<Rightarrow> string" where
  "extract_version_from_output cls output =
     (case version_search cls output of None \<Rightarrow> ''unknown'' | Some v \<Rightarrow> v)"

text \<open>\<^verbatim>\<open>Compiler.get_real_version\<close>: the executable is constructed before the \<^verbatim>\<open>try\<close>; only
  a \<^verbatim>\<open>ProcessError\<close> raised inside the scope is turned into \<^verbatim>\<open>"unknown"\<close>.\<close>

definition get_real_version ::
  "'exe externals \<Rightarrow> family \<Rightarrow> 'sp Compiler \<Rightarrow> string action" where
  "get_real_version ext cls self env =
     (case Executable ext (cc self) of
        Inl e \<Rightarrow> (Inl e, env)
      | Inr exe \<Rightarrow>
          (case compiler_environment ext self
                  (\<lambda>env'. case call ext exe [version_argument cls]
                                  (ignore_version_errors cls) env' of
                             Inl e \<Rightarrow> (Inl e, env')
                           | Inr output \<Rightarrow> (Inr (extract_version_from_output cls output), env'))
                  env of
             (Inl (ProcessError m), env'') \<Rightarrow> (Inr ''unknown'', env'')
           | (r, env'') \<Rightarrow> (r, env'')))"

text \<open>A cache entry, and the property \<^verbatim>\<open>Compiler.real_version\<close> applied to the entry that
  \<^verbatim>\<open>self.cache.get(self)\<close> returned: \<open>version\<close> is the declared \<^verbatim>\<open>self.spec.version\<close> and
  \<open>from_string\<close> is \<^verbatim>\<open>StandardVersion.from_string\<close>.\<close>

record CompilerCacheEntry =
  c_compiler_output :: "string option"
  real_version_str :: string

definition real_version :: "(string \<Rightarrow> 'v) \<Rightarrow> 'v \<Rightarrow> CompilerCacheEntry \<Rightarrow> 'v" where
  "real_version from_string version entry =
     (if real_version_str entry = [] \<or> real_version_str entry = ''unknown'' then version
      else from_string (real_version_str entry))"

text \<open>\<^verbatim>\<open>accessible_exe\<close> and \<^verbatim>\<open>Compiler.verify_executables\<close>.  In \<^verbatim>\<open>cmp and not accessible_exe(cmp)\<close>
  a path that is \<^verbatim>\<open>None\<close> or empty is skipped.\<close>

definition accessible_exe :: "'exe externals \<Rightarrow> environ \<Rightarrow> string \<Rightarrow> bool" where
  "accessible_exe ext env exe =
     (if \<not> isabs ext exe then
        (case which_string ext exe env of
           None \<Rightarrow> False
         | Some exe' \<Rightarrow> if exe' = [] then False else isfile ext exe' \<and> access_x ext exe')
      else isfile ext exe \<and> access_x ext exe)"

definition declared_executables :: "'sp Compiler \<Rightarrow> string list" where
  "declared_executables self =
     filter (\<lambda>cmp. cmp \<noteq> []) (concat (map opt_list [cc self, cxx self, f77 self, fc self]))"

definition verify_executables ::
  "'exe externals \<Rightarrow> ('sp \<Rightarrow> string) \<Rightarrow> 'sp Compiler \<Rightarrow> unit action" where
  "verify_executables ext str_spec self env =
     compiler_environment ext self
       (\<lambda>env'. let missing = filter (\<lambda>cmp. \<not> accessible_exe ext env' cmp) (declared_executables self)
               in if missing \<noteq> [] then (Inl (CompilerAccessError (str_spec (spec self)) missing), env')
                  else (Inr (), env'))
       env"

section \<open>The persistent compiler cache\<close>

text \<open>\<^verbatim>\<open>CompilerCacheEntry.from_dict\<close>; \<open>None\<close> is the \<^verbatim>\<open>ValueError\<close>.  \<^verbatim>\<open>data.get(k)\<close> of a
  missing key is \<^verbatim>\<open>None\<close>, which is \<^term>\<open>JNull\<close>.\<close>

definition dict_get :: "(string \<times> json) list \<Rightarrow> string \<Rightarrow> json" where
  "dict_get d k = (case map_of d k of None \<Rightarrow> JNull | Some v \<Rightarrow> v)"

definition from_dict :: "json \<Rightarrow> CompilerCacheEntry option" where
  "from_dict data =
     (case data of
        JObj d \<Rightarrow>
          (case dict_get d ''real_version'' of
             JStr rv \<Rightarrow>
               (case dict_get d ''c_compiler_output'' of
                  JStr out \<Rightarrow> Some \<lparr>c_compiler_output = Some out, real_version_str = rv\<rparr>
                | JNull \<Rightarrow> Some \<lparr>c_compiler_output = None, real_version_str = rv\<rparr>
                | _ \<Rightarrow> None)
           | _ \<Rightarrow> None)
      | _ \<Rightarrow> None)"

text \<open>\<^verbatim>\<open>CompilerCache.value\<close>: the dictionary built from the two probe results.\<close>

definition value_dict :: "string option \<times> string \<Rightarrow> json" where
  "value_dict v =
     JObj [(''c_compiler_output'', json_opt (fst v)), (''real_version'', JStr (snd v))]"

text \<open>\<^verbatim>\<open>FileCompilerCache._get_entry\<close> on \<^verbatim>\<open>self._data\<close>: the entry if there is a valid one, and
  the dictionary afterwards (a malformed entry is deleted from it).\<close>

definition get_entry ::
  "string \<Rightarrow> (string \<times> json) list \<Rightarrow> CompilerCacheEntry option \<times> (string \<times> json) list" where
  "get_entry key data =
     (case map_of data key of
        None \<Rightarrow> (None, data)
      | Some v \<Rightarrow>
          (case from_dict v of
             Some entry \<Rightarrow> (Some entry, data)
           | None \<Rightarrow> (None, dict_del data key)))"

text \<open>
  The cache file as a reader finds it: absent, holding text that \<^verbatim>\<open>json.loads\<close> rejects, or
  holding a JSON document.  Writing \<^verbatim>\<open>json.dumps(self._data)\<close> leaves the document
  \<^verbatim>\<open>self._data\<close> behind.  \<open>load_data\<close> is the \<^verbatim>\<open>try\<close> block that reads it: a missing file, a
  decoding error and a document that is no dictionary all give the empty dictionary.
\<close>

datatype cache_file = Missing | Malformed | Document json

definition load_data :: "cache_file \<Rightarrow> (string \<times> json) list" where
  "load_data f = (case f of Document (JObj d) \<Rightarrow> d | _ \<Rightarrow> [])"

text \<open>The state that \<^verbatim>\<open>FileCompilerCache.get\<close> acts on: the cache file and the number of
  probes run so far.\<close>

record world =
  store :: cache_file
  probes :: nat

text \<open>
  \<^verbatim>\<open>FileCompilerCache.get\<close>.  \<open>key\<close> is \<^verbatim>\<open>self._key(compiler)\<close>; \<open>probe\<close> is the outcome of
  \<^verbatim>\<open>self.value(compiler)\<close>, the two probe results or the exception that escapes them;
  \<open>others\<close> is what other processes do to the file between the end of the read transaction
  and the moment the write transaction holds the lock.  An exception inside the write
  transaction leaves the file as it was.
\<close>

definition get ::
  "(cache_file \<Rightarrow> cache_file) \<Rightarrow> (error + string option \<times> string) \<Rightarrow> string \<Rightarrow> world
     \<Rightarrow> (error + CompilerCacheEntry) \<times> world" where
  "get others probe key w =
     (case fst (get_entry key (load_data (store w))) of
        Some v \<Rightarrow> (Inr v, w)
      | None \<Rightarrow>
          let w1 = w\<lparr>store := others (store w)\<rparr>;
              (entry, data) = get_entry key (load_data (store w1))
          in (case entry of
                Some e \<Rightarrow> (Inr e, w1\<lparr>store := Document (JObj data)\<rparr>)
              | None \<Rightarrow>
                  let w2 = w1\<lparr>probes := probes w1 + 1\<rparr> in
                  (case probe of
                     Inl err \<Rightarrow> (Inl err, w2)
                   | Inr v \<Rightarrow>
                       let data' = dict_set data key (value_dict v) in
                       (case from_dict (value_dict v) of
                          None \<Rightarrow> (Inl (ValueError ''Invalid CompilerCacheEntry data''), w2)
                        | Some e \<Rightarrow> (Inr e, w2\<lparr>store := Document (JObj data')\<rparr>)))))"

section \<open>Example instances\<close>

text \<open>A compiler as a configuration file declares it, with \<^verbatim>\<open>CompilerSpec\<close> printed as itself;
  a variant that needs a module and an environment modification; and a host on which loading
  a module records it in \<^verbatim>\<open>LOADEDMODULES\<close>, the modifications set \<^verbatim>\<open>CC_MODE\<close>, a compiler
  called \<^verbatim>\<open>gcc\<close> is found at \<^verbatim>\<open>/opt/gcc/bin/gcc\<close> once its module is loaded, and the child
  process prints \<^verbatim>\<open>9.3.0\<close>.\<close>

definition example_gcc :: "string Compiler" where
  "example_gcc =
     \<lparr>spec = ''gcc@9.3.0'', operating_system = ''ubuntu20.04'', target = Some ''x86_64'',
      modules = [], alias' = None, environment = JObj [], extra_rpaths = [],
      enable_implicit_rpaths = None, cc = Some ''/usr/bin/gcc'', cxx = Some ''/usr/bin/g++'',
      f77 = None, fc = None, flags = []\<rparr>"

definition example_module_gcc :: "string Compiler" where
  "example_module_gcc =
     example_gcc\<lparr>modules := [''gcc/9.3.0''],
                 environment := JObj [(''set'', JObj [(''CC_MODE'', JStr ''strict'')])],
                 cc := Some ''gcc'', cxx := Some ''/opt/gcc/bin/g++'', f77 := Some ''gfortran'',
                 fc := Some ''gfortran''\<rparr>"

definition example_host :: "string externals" where
  "example_host =
     \<lparr>load_module = (\<lambda>m env. (Inr (), env(''LOADEDMODULES'' \<mapsto> m))),
      apply_modifications = (\<lambda>mods env. (Inr (), env(''CC_MODE'' \<mapsto> ''strict''))),
      Executable = (\<lambda>p. case p of None \<Rightarrow> Inl (OtherError ''no path'') | Some s \<Rightarrow> Inr s),
      call = spec_call (\<lambda>exe args env. if exe = ''/usr/bin/gcc'' then Exited 0 ''9.3.0''
                                         else if exe = ''gcc'' then Exited 1 ''gcc: fatal error''
                                         else NotStarted),
      which_string = (\<lambda>name env. if name = ''gcc'' \<and> env ''LOADEDMODULES'' = Some ''gcc/9.3.0''
                                  then Some ''/opt/gcc/bin/gcc'' else None),
      isabs = (\<lambda>p. startswith p ''/''),
      isfile = (\<lambda>p. p = ''/usr/bin/gcc'' \<or> p = ''/usr/bin/g++'' \<or> p = ''/opt/gcc/bin/gcc''),
      access_x = (\<lambda>p. True)\<rparr>"

definition example_family :: family where
  "example_family =
     \<lparr>version_argument = ''-dumpversion'', ignore_version_errors = [],
      version_search = (\<lambda>out. if out = [] then None else Some out)\<rparr>"

section \<open>Facts about the string primitives\<close>

lemma join_sp_Cons: "join_sp (w # ws) = w @ concat (map (\<lambda>t. '' '' @ t) ws)"
  unfolding join_sp_def by (induction ws arbitrary: w) auto

lemma split_from_words:
  "list_all (\<lambda>c. \<not> isspace c) w \<Longrightarrow> list_all is_word (split_from w s)"
proof (induction s arbitrary: w)
  case Nil
  then show ?case by (simp add: is_word_def)
next
  case (Cons c s)
  show ?case
  proof (cases "isspace c")
    case True
    then show ?thesis using Cons.IH [of "[]"] Cons.prems by (simp add: is_word_def)
  next
    case False
    then show ?thesis using Cons.IH [of "w @ [c]"] Cons.prems by simp
  qed
qed

lemma py_split_words: "list_all is_word (py_split s)"
  unfolding py_split_def by (rule split_from_words) simp

lemma split_from_nospace:
  "list_all (\<lambda>c. \<not> isspace c) u \<Longrightarrow> split_from w u = (if w @ u = [] then [] else [w @ u])"
  by (induction u arbitrary: w) auto

lemma split_from_word_space:
  "list_all (\<lambda>c. \<not> isspace c) u \<Longrightarrow> isspace d \<Longrightarrow>
     split_from w (u @ d # rest) =
       (if w @ u = [] then split_from [] rest else (w @ u) # split_from [] rest)"
  by (induction u arbitrary: w) auto

lemma isspace_space: "isspace CHR '' ''"
  by (simp add: isspace_def)

lemma py_split_join_sp: "list_all is_word ws \<Longrightarrow> py_split (join_sp ws) = ws"
  unfolding join_sp_def
proof (induction "'' ''" ws rule: join_with.induct)
  case 1
  show ?case by (simp add: py_split_def)
next
  case (2 w)
  then show ?case by (simp add: py_split_def split_from_nospace is_word_def)
next
  case (3 w v ws)
  have "split_from [] (w @ CHR '' '' # join_with '' '' (v # ws))
          = w # split_from [] (join_with '' '' (v # ws))"
    using 3 split_from_word_space [of w "CHR '' ''" "[]" "join_with '' '' (v # ws)"]
    by (simp add: is_word_def isspace_space)
  then show ?case using 3 by (simp add: py_split_def)
qed

lemma py_split_all_space: "list_all isspace s \<Longrightarrow> py_split s = []"
  unfolding py_split_def by (induction s) auto

section \<open>Facts about the flag tokenizer\<close>

lemma tokenize_loop_groups:
  "tokenize_loop flag acc p ts =
     acc @ (flag @ concat (map (\<lambda>t. '' '' @ t) (takeWhile (\<lambda>t. \<not> is_flag t) ts)), p)
         # map (\<lambda>g. (join_sp g, p)) (flag_groups (dropWhile (\<lambda>t. \<not> is_flag t) ts))"
proof (induction ts arbitrary: flag acc)
  case Nil
  show ?case by simp
next
  case (Cons t ts)
  show ?case
  proof (cases "is_flag t")
    case True
    then show ?thesis
      using Cons.IH [of t "acc @ [(flag, p)]"]
      by (simp add: is_flag_def join_sp_Cons)
  next
    case False
    then show ?thesis
      using Cons.IH [of "flag @ '' '' @ t" acc]
      by (simp add: is_flag_def)
  qed
qed

lemma tokenize_flags_groups:
  "tokenize_flags s p = map (\<lambda>g. (join_sp g, p)) (flag_groups (py_split s))"
  by (cases "py_split s") (simp_all add: tokenize_flags_def tokenize_loop_groups join_sp_Cons)

lemma concat_flag_groups: "concat (flag_groups ws) = ws"
  by (induction ws rule: flag_groups.induct) simp_all

lemma flag_groups_subset: "g \<in> set (flag_groups ws) \<Longrightarrow> set g \<subseteq> set ws"
proof (induction ws arbitrary: g rule: flag_groups.induct)
  case 1
  then show ?case by simp
next
  case (2 w ws)
  show ?case
  proof (cases "g = w # takeWhile (\<lambda>t. \<not> is_flag t) ws")
    case True
    then show ?thesis by (auto dest: set_takeWhileD)
  next
    case False
    with 2 have "set g \<subseteq> set (dropWhile (\<lambda>t. \<not> is_flag t) ws)" by simp
    then show ?thesis by (auto dest: set_dropWhileD)
  qed
qed

lemma flag_groups_tail_values:
  "g \<in> set (flag_groups ws) \<Longrightarrow> g \<noteq> [] \<and> (\<forall>w \<in> set (tl g). \<not> is_flag w)"
proof (induction ws arbitrary: g rule: flag_groups.induct)
  case 1
  then show ?case by simp
next
  case (2 w ws)
  show ?case
  proof (cases "g = w # takeWhile (\<lambda>t. \<not> is_flag t) ws")
    case True
    have "\<forall>v \<in> set (takeWhile (\<lambda>t. \<not> is_flag t) ws). \<not> is_flag v"
      using set_takeWhileD by fastforce
    with True show ?thesis by simp
  next
    case False
    with "2.prems" have "g \<in> set (flag_groups (dropWhile (\<lambda>t. \<not> is_flag t) ws))" by simp
    then show ?thesis by (rule "2.IH")
  qed
qed

lemma flag_groups_later_heads: "g \<in> set (tl (flag_groups ws)) \<Longrightarrow> is_flag (hd g)"
proof (induction ws arbitrary: g rule: flag_groups.induct)
  case 1
  then show ?case by simp
next
  case (2 w ws)
  let ?d = "dropWhile (\<lambda>t. \<not> is_flag t) ws"
  from 2 have g: "g \<in> set (flag_groups ?d)" by simp
  show ?case
  proof (cases ?d)
    case Nil
    with g show ?thesis by simp
  next
    case (Cons t ts)
    then have "is_flag t" using hd_dropWhile [of "\<lambda>t. \<not> is_flag t" ws] by auto
    with g Cons 2 show ?thesis by auto
  qed
qed

lemma flag_groups_no_flags:
  assumes "ws \<noteq> []" and "list_all (\<lambda>w. \<not> is_flag w) ws"
  shows "flag_groups ws = [ws]"
proof -
  obtain w vs where ws: "ws = w # vs" using assms(1) by (cases ws) auto
  have all: "\<forall>x \<in> set vs. \<not> is_flag x" using assms(2) ws by (simp add: list_all_iff)
  have tw: "takeWhile (\<lambda>t. \<not> is_flag t) vs = vs"
    using all by (simp add: takeWhile_eq_all_conv)
  have dw: "dropWhile (\<lambda>t. \<not> is_flag t) vs = []"
    using all by (simp add: dropWhile_eq_Nil_conv)
  show ?thesis unfolding ws by (simp add: tw dw)
qed

lemma flag_groups_words:
  assumes "g \<in> set (flag_groups (py_split s))"
  shows "list_all is_word g"
proof -
  have "set g \<subseteq> set (py_split s)" using assms by (rule flag_groups_subset)
  moreover have "\<forall>w \<in> set (py_split s). is_word w"
    using py_split_words [of s] by (simp add: list_all_iff)
  ultimately show ?thesis by (auto simp: list_all_iff)
qed

lemma join_sp_is_flag: "g \<noteq> [] \<Longrightarrow> is_word (hd g) \<Longrightarrow> is_flag (hd g) \<Longrightarrow> startswith (join_sp g) ''-''"
  by (cases g; cases "hd g") (auto simp: join_sp_Cons is_flag_def startswith_def is_word_def)

section \<open>Facts about the patterns\<close>

lemma star_states_nonempty: "star_states k st \<noteq> []"
  by (cases st; cases "snd st") auto

lemma star_states_hd:
  "hd (star_states k (n, q)) = (n + length (takeWhile (cls_match k) q), dropWhile (cls_match k) q)"
proof (induction q arbitrary: n)
  case Nil
  show ?case by simp
next
  case (Cons c cs)
  show ?case
  proof (cases "cls_match k c")
    case True
    then show ?thesis
      using Cons [of "Suc n"] star_states_nonempty [of k "(Suc n, cs)"] by simp
  next
    case False
    then show ?thesis by simp
  qed
qed

lemma dot_cls: "cls_match CDot = (\<lambda>c. c \<noteq> CHR 0x0A)"
  by (rule ext) simp

lemma take_dot_prefix: "take (length (takeWhile P q)) q = takeWhile P q"
  by (induction q) auto

lemma LINK_DIR_ARG_closed:
  "LINK_DIR_ARG arg =
     (case arg of
        a # b # r \<Rightarrow>
          (if a = CHR ''-'' \<and> b = CHR ''L'' then
             (case r of
                c # d # s # q \<Rightarrow>
                  if c \<noteq> CHR 0x0A \<and> d = CHR '':'' \<and> s \<in> set seps then Some (s # dot_prefix q)
                  else if c \<in> set seps then Some (c # dot_prefix (d # s # q))
                  else None
              | c # q \<Rightarrow> if c \<in> set seps then Some (c # dot_prefix q) else None
              | [] \<Rightarrow> None)
           else None)
      | _ \<Rightarrow> None)"
  unfolding LINK_DIR_ARG_def re_group_def dot_prefix_def
  by (auto split: list.splits simp: star_states_hd star_states_nonempty dot_cls take_dot_prefix seps_def)


lemma rmatch_lit:
  "rmatch (lit s) (n, t) = (if startswith t s then [(n + length s, drop (length s) t)] else [])"
proof (induction s arbitrary: n t)
  case Nil
  show ?case by (simp add: startswith_def)
next
  case (Cons c s)
  show ?case
  proof (cases t)
    case Nil
    then show ?thesis by (simp add: startswith_def)
  next
    case (Cons d u)
    then show ?thesis using Cons.IH [of "Suc n" u] by (auto simp: startswith_def)
  qed
qed

lemma startswith_snoc:
  "startswith t (s @ [c]) \<longleftrightarrow> startswith t s \<and> (\<exists>u. drop (length s) t = c # u)"
proof (induction s arbitrary: t)
  case Nil
  show ?case by (cases t) (auto simp: startswith_def)
next
  case (Cons d s)
  show ?case
  proof (cases t)
    case Nil
    then show ?thesis by (simp add: startswith_def)
  next
    case (Cons e u)
    then show ?thesis using Cons.IH [of u] by (auto simp: startswith_def)
  qed
qed

lemma rmatch_lit_chr:
  "rmatch (RSeq (lit s) (RSeq (RAtom (CChr c)) REps)) (n, t) =
     (if startswith t (s @ [c]) then [(Suc (n + length s), drop (Suc (length s)) t)] else [])"
proof (cases "drop (length s) t")
  case Nil
  then show ?thesis by (simp add: rmatch_lit startswith_snoc del: lit.simps)
next
  case (Cons d u)
  then have "drop (Suc (length s)) t = u"
    by (metis drop_Suc list.sel(3) tl_drop)
  with Cons show ?thesis by (simp add: rmatch_lit startswith_snoc del: lit.simps)
qed

lemma rmatch_alt_seq: "rmatch (RSeq (RAlt a b) c) st = rmatch (RSeq a c) st @ rmatch (RSeq b c) st"
  by simp

lemma libpath_prefixes_disjoint: "startswith r ''LIBPATH:'' \<Longrightarrow> \<not> startswith r ''libpath:''"
  by (auto simp: startswith_def)

lemma LIBPATH_ARG_closed:
  "LIBPATH_ARG arg =
     (case arg of
        [] \<Rightarrow> None
      | x # r \<Rightarrow>
          if (x = CHR ''-'' \<or> x = CHR ''/'')
             \<and> (startswith r ''LIBPATH:'' \<or> startswith r ''libpath:'')
          then Some (dot_prefix (drop 8 r)) else None)"
proof (cases arg)
  case Nil
  then show ?thesis by (simp add: LIBPATH_ARG_def re_group_def)
next
  case (Cons x r)
  have alt: "rmatch (RSeq (RAlt (lit ''LIBPATH'') (lit ''libpath'')) (RSeq (RAtom (CChr CHR '':'')) REps)) (1, r)
        = (if startswith r ''LIBPATH:'' \<or> startswith r ''libpath:'' then [(9, drop 8 r)] else [])"
    unfolding rmatch_alt_seq rmatch_lit_chr
    using libpath_prefixes_disjoint [of r] by (simp add: eval_nat_numeral)
  have pre: "rmatch (rseq [RBol, RAtom (COneOf ''-/''), RAlt (lit ''LIBPATH'') (lit ''libpath''),
                     RAtom (CChr CHR '':'')]) (0, x # r)
        = (if (x = CHR ''-'' \<or> x = CHR ''/'')
             \<and> (startswith r ''LIBPATH:'' \<or> startswith r ''libpath:'')
           then [(9, drop 8 r)] else [])"
    using alt by (simp del: lit.simps rmatch.simps(7,8) add: rmatch.simps(7) [of RBol] rmatch.simps(7) [of "RAtom (COneOf ''-/'')"])
  show ?thesis
    unfolding LIBPATH_ARG_def re_group_def pre Cons
    by (simp add: star_states_nonempty star_states_hd dot_cls take_dot_prefix dot_prefix_def)
qed

section \<open>Facts about the link-line parser\<close>

lemma LINK_DIR_ARG_None: "\<not> startswith arg ''-L'' \<Longrightarrow> LINK_DIR_ARG arg = None"
  unfolding LINK_DIR_ARG_closed by (auto simp: startswith_def split: list.splits)

lemma dot_prefix_id: "CHR 0x0A \<notin> set q \<Longrightarrow> dot_prefix q = q"
  unfolding dot_prefix_def by (simp add: takeWhile_eq_all_conv) blast

lemma LINK_DIR_ARG_drive:
  assumes "c \<noteq> CHR 0x0A" and "s \<in> set seps" and "CHR 0x0A \<notin> set q"
  shows "LINK_DIR_ARG (''-L'' @ [c, CHR '':''] @ s # q) = Some (s # q)"
  unfolding LINK_DIR_ARG_closed using assms by (simp add: dot_prefix_id)

lemma LINK_DIR_ARG_plain:
  assumes "s \<in> set seps" and "CHR 0x0A \<notin> set q"
    and "\<not> (\<exists>s' r. q = CHR '':'' # s' # r \<and> s' \<in> set seps)"
  shows "LINK_DIR_ARG (''-L'' @ s # q) = Some (s # q)"
proof -
  have "dot_prefix q = q" using assms(2) by (rule dot_prefix_id)
  then show ?thesis
    unfolding LINK_DIR_ARG_closed using assms(1,3)
    by (cases q; cases "tl q") auto
qed

lemma LIBPATH_ARG_spelled:
  assumes "x = CHR ''-'' \<or> x = CHR ''/''" and "kw = ''LIBPATH'' \<or> kw = ''libpath''"
    and "CHR 0x0A \<notin> set p"
  shows "LIBPATH_ARG (x # kw @ '':'' @ p) = Some p"
  unfolding LIBPATH_ARG_closed using assms by (auto simp: startswith_def dot_prefix_id)

lemma LIBPATH_ARG_only:
  assumes "LIBPATH_ARG arg = Some dir"
  shows "startswith arg ''-LIBPATH:'' \<or> startswith arg ''/LIBPATH:''
         \<or> startswith arg ''-libpath:'' \<or> startswith arg ''/libpath:''"
  using assms unfolding LIBPATH_ARG_closed
  by (cases arg) (auto simp: startswith_def split: if_splits)

lemma scan_args_bare:
  assumes "k = ''-L'' \<or> k = ''-Y''" and "d \<noteq> ''-L''" and "d \<noteq> ''-Y''"
  shows "scan_args b (k # d # rest) = d # scan_args False rest"
  using assms by auto

lemma set_dedup_from: "set (dedup_from visited xs) = set xs - set visited"
  by (induction xs arbitrary: visited) auto

lemma distinct_dedup_from: "distinct (dedup_from visited xs)"
  by (induction xs arbitrary: visited) (auto simp: set_dedup_from)

lemma dedup_from_snoc:
  "dedup_from visited (xs @ [x]) =
     dedup_from visited xs @ (if x \<in> set visited \<union> set xs then [] else [x])"
  by (induction xs arbitrary: visited) auto

lemma scan_lines_block:
  "scan_lines True (map (\<lambda>d. CHR 0x09 # d) ds @ tail) = ds @ scan_lines True tail"
  by (induction ds) (simp_all add: startswith_def)

lemma scan_lines_block_end:
  "\<not> startswith l [CHR 0x09] \<Longrightarrow> scan_lines True (l # rest) = link_line_dirs l @ scan_lines False rest"
  by simp

section \<open>Facts about the environment scope\<close>

lemma restore_backup: "environ_update (environ_clear env') backup_env = backup_env"
  by (simp add: environ_update_def environ_clear_def)

lemma compiler_environment_fast:
  "modules self = [] \<Longrightarrow> \<not> truthy (environment self)
     \<Longrightarrow> compiler_environment ext self body env = body env"
  by (simp add: compiler_environment_def)

lemma compiler_environment_slow:
  "modules self \<noteq> [] \<or> truthy (environment self)
     \<Longrightarrow> compiler_environment ext self body env = (fst (scope_body ext self body env), env)"
  by (auto simp: compiler_environment_def restore_backup split: prod.splits)

text \<open>The environment in which the body of the scope runs is what the scope hands to a body
  that returns its environment.\<close>

lemma scope_body_inner:
  assumes "fst (scope_body ext self (\<lambda>e. (Inr e, e)) env) = Inr env2"
  shows "scope_body ext self body env = body env2"
  using assms unfolding scope_body_def
  by (auto split: prod.splits sum.splits)

lemma compiler_environment_inner:
  assumes "fst (compiler_environment ext self (\<lambda>e. (Inr e, e)) env) = Inr env2"
  shows "fst (compiler_environment ext self body env) = fst (body env2)"
proof (cases "modules self = [] \<and> \<not> truthy (environment self)")
  case True
  then show ?thesis using assms by (simp add: compiler_environment_def)
next
  case False
  then have slow: "modules self \<noteq> [] \<or> truthy (environment self)" by blast
  from assms have "fst (scope_body ext self (\<lambda>e. (Inr e, e)) env) = Inr env2"
    unfolding compiler_environment_slow [OF slow] by simp
  then have "scope_body ext self body env = body env2" by (rule scope_body_inner)
  then show ?thesis unfolding compiler_environment_slow [OF slow] by simp
qed

section \<open>Facts about the cache\<close>

lemma map_of_dict_set: "map_of (dict_set d k v) k' = (if k' = k then Some v else map_of d k')"
  by (induction d) auto

lemma map_of_dict_del: "map_of (dict_del d k) k' = (if k' = k then None else map_of d k')"
  unfolding dict_del_def by (induction d) auto

lemma from_dict_value_dict:
  "from_dict (value_dict v) = Some \<lparr>c_compiler_output = fst v, real_version_str = snd v\<rparr>"
  by (cases "fst v") (simp_all add: from_dict_def value_dict_def dict_get_def)

lemma load_data_Document: "load_data (Document (JObj d)) = d"
  by (simp add: load_data_def)

lemma load_data_other: "\<forall>d. f \<noteq> Document (JObj d) \<Longrightarrow> load_data f = []"
  by (auto simp: load_data_def split: cache_file.splits json.splits)

lemma load_data_nonempty: "map_of (load_data f) key = Some v \<Longrightarrow> f = Document (JObj (load_data f))"
  by (auto simp: load_data_def split: cache_file.splits json.splits)

lemma get_entry_Some:
  "fst (get_entry key data) = Some e \<longleftrightarrow> (\<exists>v. map_of data key = Some v \<and> from_dict v = Some e)"
  by (auto simp: get_entry_def split: option.splits)

lemma get_entry_Some_data: "fst (get_entry key data) = Some e \<Longrightarrow> snd (get_entry key data) = data"
  by (auto simp: get_entry_def split: option.splits)

lemma get_read_hit:
  "fst (get_entry key (load_data (store w))) = Some e \<Longrightarrow> get others probe key w = (Inr e, w)"
  by (simp add: get_def)

lemma get_lock_hit:
  assumes "fst (get_entry key (load_data (store w))) = None"
    and "fst (get_entry key (load_data (others (store w)))) = Some e"
  shows "get others probe key w = (Inr e, w\<lparr>store := others (store w)\<rparr>)"
proof -
  from assms(2) obtain v where v: "map_of (load_data (others (store w))) key = Some v"
    unfolding get_entry_Some by blast
  then have doc: "Document (JObj (load_data (others (store w)))) = others (store w)"
    using load_data_nonempty by metis
  have "get_entry key (load_data (others (store w))) = (Some e, load_data (others (store w)))"
    using assms(2) get_entry_Some_data [OF assms(2)] by (metis prod.collapse)
  then show ?thesis
    using assms(1) doc by (simp add: get_def)
qed

lemma get_computed:
  assumes "fst (get_entry key (load_data (store w))) = None"
    and "fst (get_entry key (load_data (others (store w)))) = None"
  shows "get others (Inr v) key w =
           (Inr \<lparr>c_compiler_output = fst v, real_version_str = snd v\<rparr>,
            \<lparr>store = Document (JObj (dict_set (snd (get_entry key (load_data (others (store w)))))
                                     key (value_dict v))),
             probes = probes w + 1\<rparr>)"
  using assms
  by (cases "get_entry key (load_data (others (store w)))")
     (simp add: get_def from_dict_value_dict)

lemma get_probe_fails:
  assumes "fst (get_entry key (load_data (store w))) = None"
    and "fst (get_entry key (load_data (others (store w)))) = None"
  shows "get others (Inl err) key w = (Inl err, \<lparr>store = others (store w), probes = probes w + 1\<rparr>)"
  using assms
  by (cases "get_entry key (load_data (others (store w)))") (simp add: get_def)

lemma get_probes_le: "probes (snd (get others probe key w)) \<le> probes w + 1"
proof (cases "fst (get_entry key (load_data (store w)))")
  case (Some e)
  then show ?thesis by (simp add: get_read_hit)
next
  case None
  show ?thesis
  proof (cases "fst (get_entry key (load_data (others (store w))))")
    case (Some e)
    with None show ?thesis by (simp add: get_lock_hit)
  next
    case n2: None
    show ?thesis
    proof (cases probe)
      case (Inl err)
      with None n2 show ?thesis by (simp add: get_probe_fails)
    next
      case (Inr v)
      with None n2 show ?thesis by (simp add: get_computed)
    qed
  qed
qed

lemma get_returns_cached:
  assumes "get others probe key w = (Inr e, w')"
  shows "fst (get_entry key (load_data (store w'))) = Some e"
proof (cases "fst (get_entry key (load_data (store w)))")
  case (Some e0)
  with assms show ?thesis by (simp add: get_read_hit)
next
  case None
  show ?thesis
  proof (cases "fst (get_entry key (load_data (others (store w))))")
    case (Some e1)
    with None assms show ?thesis by (auto simp: get_lock_hit)
  next
    case n2: None
    show ?thesis
    proof (cases probe)
      case (Inl err)
      with None n2 assms show ?thesis by (simp add: get_probe_fails)
    next
      case (Inr v)
      with None n2 assms show ?thesis
        by (auto simp: get_computed get_entry_Some load_data_Document map_of_dict_set
              from_dict_value_dict)
    qed
  qed
qed

lemma get_again:
  assumes "get others probe key w = (Inr e, w')"
  shows "get others' probe' key w' = (Inr e, w')"
  using get_returns_cached [OF assms] by (rule get_read_hit)

lemma get_again_many:
  assumes "get others probe key w = (Inr e, w')"
  shows "((\<lambda>u. snd (get others' probe' key u)) ^^ n) w' = w'"
  by (induction n) (simp_all add: get_again [OF assms])

lemma get_never_fails: "\<exists>e w'. get others (Inr v) key w = (Inr e, w')"
proof (cases "fst (get_entry key (load_data (store w)))")
  case (Some e)
  then show ?thesis by (simp add: get_read_hit)
next
  case None
  show ?thesis
  proof (cases "fst (get_entry key (load_data (others (store w))))")
    case (Some e)
    with None show ?thesis by (simp add: get_lock_hit)
  next
    case n2: None
    with None show ?thesis by (simp add: get_computed)
  qed
qed

lemma from_dict_None_iff:
  "from_dict data = None \<longleftrightarrow>
     (\<forall>d. data \<noteq> JObj d)
     \<or> (\<exists>d. data = JObj d
           \<and> ((\<forall>s. dict_get d ''real_version'' \<noteq> JStr s)
               \<or> (dict_get d ''c_compiler_output'' \<noteq> JNull
                   \<and> (\<forall>s. dict_get d ''c_compiler_output'' \<noteq> JStr s))))"
  by (auto simp: from_dict_def split: json.splits)

section \<open>A test vector for SHA-256\<close>

text \<open>The one-block message \<^verbatim>\<open>"abc"\<close> of FIPS 180-4.\<close>

lemma sha256_hexdigest_abc:
  "sha256_hexdigest ''abc'' = ''ba7816bf8f01cfea414140de5dae2223b00361a396177a9cb410ff61f20015ad''"
  by code_simp

section \<open>Claims\<close>

text \<open>
  C1, as amended.  Two compilers that compare equal under \<^verbatim>\<open>__eq__\<close>, whose \<^verbatim>\<open>environment\<close>
  dictionaries are moreover identical as documents (the same items in the same order, not only
  equal as Python dictionaries), and whose aliases are the same or both absent or empty, have
  the same normalized descriptor and therefore the same cache key.
\<close>

theorem cache_key_of_equal_compilers:
  "Compiler_eq c1 c2 \<and> environment c1 = environment c2
     \<and> (alias' c1 = alias' c2
         \<or> (alias' c1 \<in> {None, Some []} \<and> alias' c2 \<in> {None, Some []}))
   \<longrightarrow> to_dict str_spec c1 = to_dict str_spec c2
       \<and> cache_key str_spec c1 = cache_key str_spec c2"
proof
  assume h: "Compiler_eq c1 c2 \<and> environment c1 = environment c2
     \<and> (alias' c1 = alias' c2
         \<or> (alias' c1 \<in> {None, Some []} \<and> alias' c2 \<in> {None, Some []}))"
  then have fields: "cc c1 = cc c2" "cxx c1 = cxx c2" "f77 c1 = f77 c2" "fc c1 = fc c2"
      "spec c1 = spec c2" "operating_system c1 = operating_system c2" "target c1 = target c2"
      "flags c1 = flags c2" "modules c1 = modules c2" "extra_rpaths c1 = extra_rpaths c2"
      "enable_implicit_rpaths c1 = enable_implicit_rpaths c2" "environment c1 = environment c2"
    by (simp_all add: Compiler_eq_def)
  have al: "(case alias' c1 of None \<Rightarrow> r | Some a \<Rightarrow> if a = [] then r else r @ [(''alias'', JStr a)])
          = (case alias' c2 of None \<Rightarrow> r | Some a \<Rightarrow> if a = [] then r else r @ [(''alias'', JStr a)])"
    for r :: "(string \<times> json) list"
    using h by auto
  have d: "to_dict str_spec c1 = to_dict str_spec c2"
    unfolding to_dict_def Let_def fields by (simp add: al)
  then show "to_dict str_spec c1 = to_dict str_spec c2
       \<and> cache_key str_spec c1 = cache_key str_spec c2"
    by (simp add: cache_key_def)
qed

theorem cache_key_of_equal_compilers_witness:
  "Compiler_eq example_gcc (example_gcc\<lparr>alias' := Some []\<rparr>)
   \<and> environment example_gcc = environment (example_gcc\<lparr>alias' := Some []\<rparr>)
   \<and> alias' example_gcc = None \<and> alias' (example_gcc\<lparr>alias' := Some []\<rparr>) = Some []
   \<and> cache_key (\<lambda>s. s) example_gcc = cache_key (\<lambda>s. s) (example_gcc\<lparr>alias' := Some []\<rparr>)"
proof -
  let ?c2 = "example_gcc\<lparr>alias' := Some []\<rparr>"
  have e: "Compiler_eq example_gcc ?c2"
    by (simp add: Compiler_eq_def example_gcc_def)
  have v: "environment example_gcc = environment ?c2"
    by simp
  have a: "alias' example_gcc = None" "alias' ?c2 = Some []"
    by (simp_all add: example_gcc_def)
  have h: "Compiler_eq example_gcc ?c2 \<and> environment example_gcc = environment ?c2
     \<and> (alias' example_gcc = alias' ?c2
         \<or> (alias' example_gcc \<in> {None, Some []} \<and> alias' ?c2 \<in> {None, Some []}))"
    using e a by simp
  have k: "cache_key (\<lambda>s. s) example_gcc = cache_key (\<lambda>s. s) ?c2"
    using mp [OF cache_key_of_equal_compilers [of example_gcc ?c2 "\<lambda>s. s"] h]
    by (rule conjunct2)
  from e v a k show ?thesis by (intro conjI)
qed

text \<open>
  C1 as stated fails: \<^verbatim>\<open>__eq__\<close> does not compare \<^verbatim>\<open>alias\<close>, and \<^verbatim>\<open>to_dict\<close> writes it.  The
  example compiler and its copy with the alias \<^verbatim>\<open>a\<close> compare equal and have the keys
  \<^verbatim>\<open>d793221869ae...\<close> and \<^verbatim>\<open>80071f68aaeb...\<close>.
\<close>

theorem cache_key_alias_counterexample:
  "Compiler_eq example_gcc (example_gcc\<lparr>alias' := Some ''a''\<rparr>)
   \<and> cache_key (\<lambda>s. s) example_gcc
       = ''d793221869ae202a6a369c1cdc2ad6e9124f6089f8c220865aaff4f1831fa9e0''
   \<and> cache_key (\<lambda>s. s) (example_gcc\<lparr>alias' := Some ''a''\<rparr>)
       = ''80071f68aaebc04dc833b427b584b47b15b39e70899373753175ec411af33c4c''
   \<and> cache_key (\<lambda>s. s) example_gcc \<noteq> cache_key (\<lambda>s. s) (example_gcc\<lparr>alias' := Some ''a''\<rparr>)"
proof -
  let ?c2 = "example_gcc\<lparr>alias' := Some ''a''\<rparr>"
  let ?b1 = "[2065855344, 1700995642, 577200995, 1077489203, 774906412, 577790324, 1752375866,
              2065851235, 574235183, 1970500143, 1651076655, 1734566690, 740451192, 2015509026,
              796226418, 794978670] :: int list"
  let ?b2 = "[795290411, 573317734, 926360122, 1853189228, 740451939, 574254709, 1819049260,
              577137761, 1735598650, 2071800866, 1869636978, 1635019118, 1734308729, 1937007981,
              574235253, 1651863156] :: int list"
  let ?b3 = "[1966223406, 808722988, 578052466, 1734702114, 975337528, 912209460, 573317741,
              1868854636, 1702044218, 1532832802, 1701738089, 1919905389, 1701737506, 981171500,
              577075316, 1918984050] :: int list"
  let ?b4 = "[1885434984, 1931623003, 1568505856, 0, 0, 0, 0, 0, 0, 0, 0, 0, 0, 0, 0, 1616] :: int list"
  let ?b4' = "[1885434984, 1931623003, 1563173473, 1818845555, 574235233, 578650112, 0, 0, 0, 0,
               0, 0, 0, 0, 0, 1712] :: int list"
  let ?s1 = "(3707024108, 1611138127, 1363839499, 2118206046, 2294260444, 880797852, 2606254988,
              1884320460) :: sha_state"
  let ?s2 = "(1699478378, 1061978034, 2375720895, 419515215, 2709710263, 934344104, 595588182,
              2393657183) :: sha_state"
  let ?s3 = "(2942420497, 2838812521, 2317027077, 2688602443, 902846763, 3335916313, 2369837984,
              403939469) :: sha_state"
  have e: "Compiler_eq example_gcc ?c2"
    by (simp add: Compiler_eq_def example_gcc_def)
  have m1: "sha_blocks (dumps (to_dict (\<lambda>s. s) example_gcc)) = [?b1, ?b2, ?b3, ?b4]"
    by code_simp
  have m2: "sha_blocks (dumps (to_dict (\<lambda>s. s) ?c2)) = [?b1, ?b2, ?b3, ?b4']"
    by code_simp
  have s1: "compress sha_init ?b1 = ?s1" by code_simp
  have s2: "compress ?s1 ?b2 = ?s2" by code_simp
  have s3: "compress ?s2 ?b3 = ?s3" by code_simp
  have s4: "state_hex (compress ?s3 ?b4)
              = ''d793221869ae202a6a369c1cdc2ad6e9124f6089f8c220865aaff4f1831fa9e0''"
    by code_simp
  have s4': "state_hex (compress ?s3 ?b4')
              = ''80071f68aaebc04dc833b427b584b47b15b39e70899373753175ec411af33c4c''"
    by code_simp
  have k1: "cache_key (\<lambda>s. s) example_gcc
              = ''d793221869ae202a6a369c1cdc2ad6e9124f6089f8c220865aaff4f1831fa9e0''"
    unfolding cache_key_def sha256_hexdigest_def m1 by (simp only: foldl.simps s1 s2 s3 s4)
  have k2: "cache_key (\<lambda>s. s) ?c2
              = ''80071f68aaebc04dc833b427b584b47b15b39e70899373753175ec411af33c4c''"
    unfolding cache_key_def sha256_hexdigest_def m2 by (simp only: foldl.simps s1 s2 s3 s4')
  have ne: "cache_key (\<lambda>s. s) example_gcc \<noteq> cache_key (\<lambda>s. s) ?c2"
    unfolding k1 k2 by simp
  from e k1 k2 ne show ?thesis by (intro conjI)
qed

text \<open>
  The hypothesis on \<^verbatim>\<open>environment\<close> is needed as well: Python compares dictionaries without
  regard to the order of their items, and \<^verbatim>\<open>json.dumps\<close> writes the items in order.  Two
  compilers that differ only in the order of two variables under \<^verbatim>\<open>set\<close> compare equal and
  are serialized differently.
\<close>

lemma descriptor_environment_order_example:
  "Compiler_eq
     (example_gcc\<lparr>environment := JObj [(''set'', JObj [(''A'', JStr ''1''), (''B'', JStr ''2'')])]\<rparr>)
     (example_gcc\<lparr>environment := JObj [(''set'', JObj [(''B'', JStr ''2''), (''A'', JStr ''1'')])]\<rparr>)
   \<and> dumps (to_dict (\<lambda>s. s)
        (example_gcc\<lparr>environment := JObj [(''set'', JObj [(''A'', JStr ''1''), (''B'', JStr ''2'')])]\<rparr>))
     \<noteq> dumps (to_dict (\<lambda>s. s)
        (example_gcc\<lparr>environment := JObj [(''set'', JObj [(''B'', JStr ''2''), (''A'', JStr ''1'')])]\<rparr>))"
  by code_simp

text \<open>
  C2.  An entry is present for a key when the dictionary read from the file holds a value
  under the key that \<^verbatim>\<open>from_dict\<close> accepts.  If the read transaction finds one, \<^verbatim>\<open>get\<close> returns
  it and touches nothing.  Otherwise \<^verbatim>\<open>get\<close> reads the file again under the write transaction,
  after whatever other processes did to it in the meantime (\<open>others\<close>): if an entry is present
  now, \<^verbatim>\<open>get\<close> returns it, runs no probe and leaves the document as it found it; only if there
  is still none does it run the probe, once, store the value under the key and write the whole
  dictionary back.  A call runs at most one probe, and after a call that returned an entry
  every later call for the same key returns the same entry and changes nothing, so no further
  probe is run for that key.
\<close>

theorem file_cache_get_double_check:
  "(fst (get_entry key data) = Some e \<longleftrightarrow> (\<exists>v. map_of data key = Some v \<and> from_dict v = Some e))
   \<and> (fst (get_entry key (load_data (store w))) = Some e
        \<longrightarrow> get others probe key w = (Inr e, w))
   \<and> (fst (get_entry key (load_data (store w))) = None
        \<and> fst (get_entry key (load_data (others (store w)))) = Some e
        \<longrightarrow> get others probe key w = (Inr e, w\<lparr>store := others (store w)\<rparr>))
   \<and> (fst (get_entry key (load_data (store w))) = None
        \<and> fst (get_entry key (load_data (others (store w)))) = None
        \<longrightarrow> get others (Inr v) key w =
             (Inr \<lparr>c_compiler_output = fst v, real_version_str = snd v\<rparr>,
              \<lparr>store = Document (JObj (dict_set (snd (get_entry key (load_data (others (store w)))))
                                       key (value_dict v))),
               probes = probes w + 1\<rparr>))
   \<and> probes (snd (get others probe key w)) \<le> probes w + 1
   \<and> (get others probe key w = (Inr e, w')
        \<longrightarrow> get others' probe' key w' = (Inr e, w')
            \<and> ((\<lambda>u. snd (get others' probe' key u)) ^^ n) w' = w')"
proof -
  have a: "fst (get_entry key data) = Some e
             \<longleftrightarrow> (\<exists>v. map_of data key = Some v \<and> from_dict v = Some e)"
    by (rule get_entry_Some)
  have b: "fst (get_entry key (load_data (store w))) = Some e
        \<longrightarrow> get others probe key w = (Inr e, w)"
    using get_read_hit [of key w e others probe] by blast
  have c: "fst (get_entry key (load_data (store w))) = None
        \<and> fst (get_entry key (load_data (others (store w)))) = Some e
        \<longrightarrow> get others probe key w = (Inr e, w\<lparr>store := others (store w)\<rparr>)"
    using get_lock_hit [of key w others e probe] by blast
  have d: "fst (get_entry key (load_data (store w))) = None
        \<and> fst (get_entry key (load_data (others (store w)))) = None
        \<longrightarrow> get others (Inr v) key w =
             (Inr \<lparr>c_compiler_output = fst v, real_version_str = snd v\<rparr>,
              \<lparr>store = Document (JObj (dict_set (snd (get_entry key (load_data (others (store w)))))
                                       key (value_dict v))),
               probes = probes w + 1\<rparr>)"
    using get_computed [of key w others v] by blast
  have e: "probes (snd (get others probe key w)) \<le> probes w + 1"
    by (rule get_probes_le)
  have f: "get others probe key w = (Inr e, w')
        \<longrightarrow> get others' probe' key w' = (Inr e, w')
            \<and> ((\<lambda>u. snd (get others' probe' key u)) ^^ n) w' = w'"
    using get_again [of others probe key w e w' others' probe']
          get_again_many [of others probe key w e w' n others' probe']
    by blast
  from a b c d e f show ?thesis by (intro conjI)
qed

theorem file_cache_get_double_check_witness:
  "fst (get_entry ''d7932218'' (load_data Missing)) = None
   \<and> fst (get_entry ''d7932218''
            (load_data (Document (JObj [(''d7932218'', value_dict (None, ''9.3.0''))]))))
       = Some \<lparr>c_compiler_output = None, real_version_str = ''9.3.0''\<rparr>
   \<and> get (\<lambda>f. Document (JObj [(''d7932218'', value_dict (None, ''9.3.0''))]))
          (Inr (Some ''verbose'', ''10.1.0'')) ''d7932218'' \<lparr>store = Missing, probes = 0\<rparr>
       = (Inr \<lparr>c_compiler_output = None, real_version_str = ''9.3.0''\<rparr>,
          \<lparr>store = Document (JObj [(''d7932218'', value_dict (None, ''9.3.0''))]), probes = 0\<rparr>)
   \<and> get (\<lambda>f. f) (Inr (Some ''verbose'', ''10.1.0'')) ''d7932218'' \<lparr>store = Missing, probes = 0\<rparr>
       = (Inr \<lparr>c_compiler_output = Some ''verbose'', real_version_str = ''10.1.0''\<rparr>,
          \<lparr>store = Document (JObj [(''d7932218'', value_dict (Some ''verbose'', ''10.1.0''))]),
           probes = 1\<rparr>)
   \<and> get (\<lambda>f. Missing) (Inl (OtherError ''must not run'')) ''d7932218''
          \<lparr>store = Document (JObj [(''d7932218'', value_dict (Some ''verbose'', ''10.1.0''))]),
           probes = 1\<rparr>
       = (Inr \<lparr>c_compiler_output = Some ''verbose'', real_version_str = ''10.1.0''\<rparr>,
          \<lparr>store = Document (JObj [(''d7932218'', value_dict (Some ''verbose'', ''10.1.0''))]),
           probes = 1\<rparr>)"
proof -
  let ?k = "''d7932218''"
  let ?w0 = "\<lparr>store = Missing, probes = 0\<rparr>"
  let ?theirs = "Document (JObj [(?k, value_dict (None, ''9.3.0''))])"
  let ?ours = "Document (JObj [(?k, value_dict (Some ''verbose'', ''10.1.0''))])"
  let ?e1 = "\<lparr>c_compiler_output = None, real_version_str = ''9.3.0''\<rparr>"
  let ?e2 = "\<lparr>c_compiler_output = Some ''verbose'', real_version_str = ''10.1.0''\<rparr>"
  let ?p = "Inr (Some ''verbose'', ''10.1.0'') :: error + string option \<times> string"
  have miss: "fst (get_entry ?k (load_data Missing)) = None"
    by (simp add: get_entry_def load_data_def)
  have miss0: "fst (get_entry ?k (load_data (store ?w0))) = None"
    by (simp add: get_entry_def load_data_def)
  have there: "fst (get_entry ?k (load_data ?theirs)) = Some ?e1"
    by (simp add: get_entry_def load_data_def from_dict_value_dict)
  note t1 = file_cache_get_double_check [of ?k _ ?e1 ?w0 "\<lambda>f. ?theirs" ?p]
  have hit: "get (\<lambda>f. ?theirs) ?p ?k ?w0 = (Inr ?e1, ?w0\<lparr>store := ?theirs\<rparr>)"
    by (rule mp [OF conjunct1 [OF conjunct2 [OF conjunct2 [OF t1]]]]) (intro conjI miss0 there)
  note t2 = file_cache_get_double_check
              [of ?k _ _ ?w0 "\<lambda>f. f" _ "(Some ''verbose'', ''10.1.0'')"]
  have "get (\<lambda>f. f) ?p ?k ?w0 =
             (Inr \<lparr>c_compiler_output = fst (Some ''verbose'', ''10.1.0''),
                   real_version_str = snd (Some ''verbose'', ''10.1.0'')\<rparr>,
              \<lparr>store = Document (JObj (dict_set (snd (get_entry ?k (load_data (store ?w0))))
                                       ?k (value_dict (Some ''verbose'', ''10.1.0'')))),
               probes = probes ?w0 + 1\<rparr>)"
    by (rule mp [OF conjunct1 [OF conjunct2 [OF conjunct2 [OF conjunct2 [OF t2]]]]])
       (intro conjI miss0)
  then have computed: "get (\<lambda>f. f) ?p ?k ?w0 = (Inr ?e2, \<lparr>store = ?ours, probes = 1\<rparr>)"
    by (simp add: get_entry_def load_data_def)
  note t3 = file_cache_get_double_check
              [of ?k _ ?e2 ?w0 "\<lambda>f. f" ?p _ "\<lparr>store = ?ours, probes = 1\<rparr>" "\<lambda>f. Missing"
                  "Inl (OtherError ''must not run'')" 0]
  have again: "get (\<lambda>f. Missing) (Inl (OtherError ''must not run'')) ?k \<lparr>store = ?ours, probes = 1\<rparr>
       = (Inr ?e2, \<lparr>store = ?ours, probes = 1\<rparr>)"
    using mp [OF conjunct2 [OF conjunct2 [OF conjunct2 [OF conjunct2 [OF conjunct2 [OF t3]]]]]
             computed]
    by (rule conjunct1)
  from miss there hit computed again show ?thesis by simp
qed

text \<open>
  C3.  For every compiler that declares a module or an environment modification, every
  wrapped operation and every behaviour of the module command, the scope returns (or raises)
  what the \<^verbatim>\<open>try\<close> block returned (or raised) and leaves the process environment equal to the
  environment at entry: whatever the environment has become, clearing it and updating it from
  the snapshot gives the snapshot.  For a compiler with no modules and no environment
  modifications the scope is the wrapped operation itself: nothing is saved and nothing is
  restored.
\<close>

theorem compiler_environment_restores:
  "(modules self \<noteq> [] \<or> truthy (environment self) \<longrightarrow>
      snd (compiler_environment ext self body env) = env
      \<and> fst (compiler_environment ext self body env) = fst (scope_body ext self body env))
   \<and> (modules self \<noteq> [] \<or> truthy (environment self) \<longrightarrow>
      (\<forall>env2 e env3. fst (scope_body ext self (\<lambda>e. (Inr e, e)) env) = Inr env2
          \<and> body env2 = (Inl e, env3)
        \<longrightarrow> compiler_environment ext self body env = (Inl e, env)))
   \<and> environ_update (environ_clear env') env = env
   \<and> (modules self = [] \<and> \<not> truthy (environment self) \<longrightarrow>
      compiler_environment ext self body env = body env)"
proof -
  have a: "modules self \<noteq> [] \<or> truthy (environment self) \<longrightarrow>
      snd (compiler_environment ext self body env) = env
      \<and> fst (compiler_environment ext self body env) = fst (scope_body ext self body env)"
    using compiler_environment_slow [of self ext body env] by simp
  have b: "modules self \<noteq> [] \<or> truthy (environment self) \<longrightarrow>
      (\<forall>env2 e env3. fst (scope_body ext self (\<lambda>e. (Inr e, e)) env) = Inr env2
          \<and> body env2 = (Inl e, env3)
        \<longrightarrow> compiler_environment ext self body env = (Inl e, env))"
    using compiler_environment_slow [of self ext body env] scope_body_inner [of ext self env _ body]
    by auto
  have c: "environ_update (environ_clear env') env = env"
    by (rule restore_backup)
  have d: "modules self = [] \<and> \<not> truthy (environment self) \<longrightarrow>
      compiler_environment ext self body env = body env"
    using compiler_environment_fast [of self ext body env] by blast
  from a b c d show ?thesis by (intro conjI)
qed

theorem compiler_environment_restores_witness:
  "modules example_module_gcc \<noteq> []
   \<and> fst (scope_body example_host example_module_gcc (\<lambda>e. (Inr e, e)) [''PATH'' \<mapsto> ''/bin''])
       = Inr [''PATH'' \<mapsto> ''/bin'', ''LOADEDMODULES'' \<mapsto> ''gcc/9.3.0'', ''CC_MODE'' \<mapsto> ''strict'']
   \<and> compiler_environment example_host example_module_gcc
        (\<lambda>e. (Inl (OtherError ''failed''), e(''TMP'' \<mapsto> ''/scratch'')) :: (error + unit) \<times> environ)
        [''PATH'' \<mapsto> ''/bin'']
       = (Inl (OtherError ''failed''), [''PATH'' \<mapsto> ''/bin''])
   \<and> snd (compiler_environment example_host example_module_gcc
        (\<lambda>e. (Inr (), Map.empty)) [''PATH'' \<mapsto> ''/bin'']) = [''PATH'' \<mapsto> ''/bin'']
   \<and> modules example_gcc = [] \<and> \<not> truthy (environment example_gcc)
   \<and> compiler_environment example_host example_gcc
        (\<lambda>e. (Inr (), e(''TMP'' \<mapsto> ''/scratch''))) [''PATH'' \<mapsto> ''/bin'']
       = (Inr (), [''PATH'' \<mapsto> ''/bin'', ''TMP'' \<mapsto> ''/scratch''])"
proof -
  let ?env = "[''PATH'' \<mapsto> ''/bin'']"
  let ?raise = "\<lambda>e. (Inl (OtherError ''failed''), e(''TMP'' \<mapsto> ''/scratch'')) :: (error + unit) \<times> environ"
  have m: "modules example_module_gcc \<noteq> []"
    by (simp add: example_module_gcc_def)
  have inner: "fst (scope_body example_host example_module_gcc (\<lambda>e. (Inr e, e)) ?env)
       = Inr [''PATH'' \<mapsto> ''/bin'', ''LOADEDMODULES'' \<mapsto> ''gcc/9.3.0'', ''CC_MODE'' \<mapsto> ''strict'']"
    by (simp add: scope_body_def example_module_gcc_def example_gcc_def example_host_def)
  have r: "?raise [''PATH'' \<mapsto> ''/bin'', ''LOADEDMODULES'' \<mapsto> ''gcc/9.3.0'', ''CC_MODE'' \<mapsto> ''strict'']
             = (Inl (OtherError ''failed''),
                [''PATH'' \<mapsto> ''/bin'', ''LOADEDMODULES'' \<mapsto> ''gcc/9.3.0'', ''CC_MODE'' \<mapsto> ''strict'',
                 ''TMP'' \<mapsto> ''/scratch''])"
    by simp
  have raised: "compiler_environment example_host example_module_gcc ?raise ?env
       = (Inl (OtherError ''failed''), ?env)"
    using compiler_environment_restores [of example_module_gcc example_host ?raise ?env] m inner r
    by blast
  have cleared: "snd (compiler_environment example_host example_module_gcc
        (\<lambda>e. (Inr (), Map.empty)) ?env) = ?env"
    using compiler_environment_restores
            [of example_module_gcc example_host "\<lambda>e. (Inr (), Map.empty)" ?env] m
    by blast
  have f: "modules example_gcc = [] \<and> \<not> truthy (environment example_gcc)"
    by (simp add: example_gcc_def)
  have noop: "compiler_environment example_host example_gcc
        (\<lambda>e. (Inr (), e(''TMP'' \<mapsto> ''/scratch''))) ?env
       = (Inr (), [''PATH'' \<mapsto> ''/bin'', ''TMP'' \<mapsto> ''/scratch''])"
    using compiler_environment_restores
            [of example_gcc example_host "\<lambda>e. (Inr (), e(''TMP'' \<mapsto> ''/scratch''))" ?env] f
    by simp
  from m inner raised cleared f noop show ?thesis by (intro conjI) simp_all
qed

text \<open>
  C4.  The filter after the parser keeps the order of the parsed directories and drops a
  directory exactly when it is not a directory on disk, or it is an element of the list of
  system directories (exact match), or it is nested under one of the six roots \<^verbatim>\<open>/lib/\<close>,
  \<^verbatim>\<open>/lib64/\<close>, \<^verbatim>\<open>/usr/lib/\<close>, \<^verbatim>\<open>/usr/lib64/\<close>, \<^verbatim>\<open>/usr/local/lib/\<close>, \<^verbatim>\<open>/usr/local/lib64/\<close>.
  \<^verbatim>\<open>/usr/lib/foo\<close> is nested under a root; \<^verbatim>\<open>/usr/lib\<close> is not, so an existing \<^verbatim>\<open>/usr/lib\<close> is
  dropped exactly when the list of system directories holds it.
\<close>

theorem non_system_link_dirs_spec:
  "non_system_link_dirs isdir system_dirs link_dirs
     = filter (\<lambda>d. \<not> (\<not> isdir d \<or> d \<in> set system_dirs \<or> in_system_subdirectory d)) link_dirs
   \<and> (d \<in> set link_dirs \<longrightarrow>
        (d \<notin> set (non_system_link_dirs isdir system_dirs link_dirs)
          \<longleftrightarrow> \<not> isdir d \<or> d \<in> set system_dirs \<or> in_system_subdirectory d))
   \<and> (in_system_subdirectory d \<longleftrightarrow>
        (\<exists>root \<in> {''/lib/'', ''/lib64/'', ''/usr/lib/'', ''/usr/lib64/'', ''/usr/local/lib/'',
                    ''/usr/local/lib64/''}. path_contains_subdirectory d root))
   \<and> in_system_subdirectory ''/usr/lib/foo''
   \<and> \<not> in_system_subdirectory ''/usr/lib''
   \<and> (''/usr/lib'' \<in> set link_dirs \<and> isdir ''/usr/lib'' \<longrightarrow>
        (''/usr/lib'' \<notin> set (non_system_link_dirs isdir system_dirs link_dirs)
          \<longleftrightarrow> ''/usr/lib'' \<in> set system_dirs))
   \<and> parse_non_system_link_dirs abspath isdir system_dirs string
        = non_system_link_dirs isdir system_dirs (parse_link_paths abspath string)"
proof -
  have flt: "non_system_link_dirs isdir system_dirs link_dirs
     = filter (\<lambda>d. \<not> (\<not> isdir d \<or> d \<in> set system_dirs \<or> in_system_subdirectory d)) link_dirs"
    unfolding non_system_link_dirs_def filter_system_paths_def
    by (induction link_dirs) auto
  have drop: "d \<in> set link_dirs \<longrightarrow>
        (d \<notin> set (non_system_link_dirs isdir system_dirs link_dirs)
          \<longleftrightarrow> \<not> isdir d \<or> d \<in> set system_dirs \<or> in_system_subdirectory d)"
    unfolding flt by auto
  have roots: "in_system_subdirectory d \<longleftrightarrow>
        (\<exists>root \<in> {''/lib/'', ''/lib64/'', ''/usr/lib/'', ''/usr/lib64/'', ''/usr/local/lib/'',
                    ''/usr/local/lib64/''}. path_contains_subdirectory d root)"
    by (simp add: in_system_subdirectory_def system_subdirectory_roots_def)
  have foo: "in_system_subdirectory ''/usr/lib/foo''"
    by (simp add: in_system_subdirectory_def system_subdirectory_roots_def
          path_contains_subdirectory_def startswith_def)
  have usrlib: "\<not> in_system_subdirectory ''/usr/lib''"
    by (simp add: in_system_subdirectory_def system_subdirectory_roots_def
          path_contains_subdirectory_def startswith_def)
  have only: "''/usr/lib'' \<in> set link_dirs \<and> isdir ''/usr/lib'' \<longrightarrow>
        (''/usr/lib'' \<notin> set (non_system_link_dirs isdir system_dirs link_dirs)
          \<longleftrightarrow> ''/usr/lib'' \<in> set system_dirs)"
    unfolding flt using usrlib by auto
  have whole: "parse_non_system_link_dirs abspath isdir system_dirs string
        = non_system_link_dirs isdir system_dirs (parse_link_paths abspath string)"
    by (simp add: parse_non_system_link_dirs_def)
  from flt drop roots foo usrlib only whole show ?thesis by (intro conjI)
qed

theorem non_system_link_dirs_spec_witness:
  "non_system_link_dirs (\<lambda>p. p \<noteq> ''/gone'') [''/usr/lib64'']
       [''/opt/gcc/lib'', ''/gone'', ''/usr/lib64'', ''/usr/lib/gcc/x86_64'', ''/usr/lib'']
     = [''/opt/gcc/lib'', ''/usr/lib'']
   \<and> ''/usr/lib'' \<in> set [''/opt/gcc/lib'', ''/gone'', ''/usr/lib64'', ''/usr/lib/gcc/x86_64'', ''/usr/lib'']
   \<and> ''/usr/lib'' \<noteq> ''/gone''
   \<and> ''/usr/lib'' \<notin> set [''/usr/lib64'']
   \<and> in_system_subdirectory ''/usr/lib/gcc/x86_64''
   \<and> ''/usr/lib'' \<in> set (non_system_link_dirs (\<lambda>p. p \<noteq> ''/gone'') [''/usr/lib64'']
       [''/opt/gcc/lib'', ''/gone'', ''/usr/lib64'', ''/usr/lib/gcc/x86_64'', ''/usr/lib''])"
proof -
  let ?isdir = "\<lambda>p. p \<noteq> ''/gone''"
  let ?ds = "[''/opt/gcc/lib'', ''/gone'', ''/usr/lib64'', ''/usr/lib/gcc/x86_64'', ''/usr/lib'']"
  have sub: "in_system_subdirectory ''/usr/lib/gcc/x86_64''"
       "\<not> in_system_subdirectory ''/opt/gcc/lib''"
       "\<not> in_system_subdirectory ''/usr/lib64''"
       "\<not> in_system_subdirectory ''/usr/lib''"
    by (simp_all add: in_system_subdirectory_def system_subdirectory_roots_def
          path_contains_subdirectory_def startswith_def)
  have flt: "non_system_link_dirs ?isdir [''/usr/lib64''] ?ds
     = filter (\<lambda>d. \<not> (\<not> ?isdir d \<or> d \<in> set [''/usr/lib64''] \<or> in_system_subdirectory d)) ?ds"
    using non_system_link_dirs_spec [of ?isdir "[''/usr/lib64'']" ?ds] by blast
  have res: "non_system_link_dirs ?isdir [''/usr/lib64''] ?ds = [''/opt/gcc/lib'', ''/usr/lib'']"
    unfolding flt by (simp add: sub)
  have keep: "''/usr/lib'' \<in> set ?ds \<and> ?isdir ''/usr/lib'' \<longrightarrow>
        (''/usr/lib'' \<notin> set (non_system_link_dirs ?isdir [''/usr/lib64''] ?ds)
          \<longleftrightarrow> ''/usr/lib'' \<in> set [''/usr/lib64''])"
    using non_system_link_dirs_spec [of ?isdir "[''/usr/lib64'']" ?ds] by blast
  then have kept: "''/usr/lib'' \<in> set (non_system_link_dirs ?isdir [''/usr/lib64''] ?ds)"
    by simp
  from res sub(1) kept show ?thesis by simp
qed

text \<open>
  C5.  For every flag string \<open>s\<close> and every \<open>propagate\<close> value \<open>p\<close>, \<open>tokenize_flags\<close> returns
  the groups of the words of \<open>s\<close>, each group joined by single spaces and paired with \<open>p\<close>:
  the words of the tokens, in order, are the words of \<open>s\<close>; every pair carries \<open>p\<close> and is the
  single-space join of its own words; inside a token no word after the first starts with
  \<^verbatim>\<open>-\<close> (such a word was joined onto the token before it and opened none); every token
  after the first starts with \<^verbatim>\<open>-\<close>; a string of whitespace only (the empty string
  included) gives the empty list; a string with at least one word and no word starting with
  \<^verbatim>\<open>-\<close> gives exactly one token, the single-space join of its words; and
  \<^verbatim>\<open>"-O2 -include foo.h"\<close> gives \<^verbatim>\<open>[("-O2", p), ("-include foo.h", p)]\<close>.
\<close>

theorem tokenize_flags_spec:
  "tokenize_flags s p = map (\<lambda>g. (join_sp g, p)) (flag_groups (py_split s))
   \<and> concat (map (\<lambda>(t, q). py_split t) (tokenize_flags s p)) = py_split s
   \<and> (\<forall>(t, q) \<in> set (tokenize_flags s p).
          q = p \<and> join_sp (py_split t) = t
          \<and> (\<forall>w \<in> set (tl (py_split t)). \<not> startswith w ''-''))
   \<and> (\<forall>(t, q) \<in> set (tl (tokenize_flags s p)). startswith t ''-'')
   \<and> (list_all isspace s \<longrightarrow> tokenize_flags s p = [])
   \<and> (py_split s \<noteq> [] \<and> list_all (\<lambda>w. \<not> startswith w ''-'') (py_split s)
        \<longrightarrow> tokenize_flags s p = [(join_sp (py_split s), p)])
   \<and> tokenize_flags ''-O2 -include foo.h'' p = [(''-O2'', p), (''-include foo.h'', p)]"
proof -
  let ?gs = "flag_groups (py_split s)"
  have eq: "tokenize_flags s p = map (\<lambda>g. (join_sp g, p)) ?gs"
    by (rule tokenize_flags_groups)
  have rt: "py_split (join_sp g) = g" if "g \<in> set ?gs" for g
    using that by (intro py_split_join_sp flag_groups_words)
  have "map (\<lambda>(t, q). py_split t) (tokenize_flags s p) = map (\<lambda>g. py_split (join_sp g)) ?gs"
    unfolding eq by simp
  also have "\<dots> = ?gs" by (rule map_idI) (rule rt)
  finally have words: "concat (map (\<lambda>(t, q). py_split t) (tokenize_flags s p)) = py_split s"
    by (simp add: concat_flag_groups)
  have each: "\<forall>(t, q) \<in> set (tokenize_flags s p).
          q = p \<and> join_sp (py_split t) = t
          \<and> (\<forall>w \<in> set (tl (py_split t)). \<not> startswith w ''-'')"
    unfolding eq using rt flag_groups_tail_values [of _ "py_split s"]
    by (auto simp: is_flag_def)
  have later: "\<forall>(t, q) \<in> set (tl (tokenize_flags s p)). startswith t ''-''"
  proof -
    have "startswith (join_sp g) ''-''" if g: "g \<in> set (tl ?gs)" for g
    proof -
      from g have mem: "g \<in> set ?gs" by (cases ?gs) auto
      then have ne: "g \<noteq> []" using flag_groups_tail_values by blast
      moreover have "is_word (hd g)"
        using flag_groups_words [OF mem] ne by (cases g) simp_all
      moreover have "is_flag (hd g)" using g by (rule flag_groups_later_heads)
      ultimately show ?thesis by (rule join_sp_is_flag)
    qed
    then show ?thesis unfolding eq map_tl [symmetric] by auto
  qed
  have blank: "list_all isspace s \<longrightarrow> tokenize_flags s p = []"
    by (simp add: tokenize_flags_def py_split_all_space)
  have single: "py_split s \<noteq> [] \<and> list_all (\<lambda>w. \<not> startswith w ''-'') (py_split s)
        \<longrightarrow> tokenize_flags s p = [(join_sp (py_split s), p)]"
    unfolding eq using flag_groups_no_flags [of "py_split s"] by (simp add: is_flag_def)
  have example: "tokenize_flags ''-O2 -include foo.h'' p = [(''-O2'', p), (''-include foo.h'', p)]"
    by (simp add: tokenize_flags_def py_split_def isspace_def startswith_def)
  from eq words each later blank single example show ?thesis by blast
qed

theorem tokenize_flags_spec_witness:
  "py_split ''mpi  fast'' = [''mpi'', ''fast'']
   \<and> tokenize_flags ''mpi  fast'' True = [(''mpi fast'', True)]
   \<and> list_all isspace [CHR 0x20, CHR 0x09]
   \<and> tokenize_flags [CHR 0x20, CHR 0x09] False = []
   \<and> tokenize_flags ''-I /a -g x  y'' False = [(''-I /a'', False), (''-g x y'', False)]"
proof -
  have w: "py_split ''mpi  fast'' = [''mpi'', ''fast'']"
    by (simp add: py_split_def isspace_def)
  have nf: "list_all (\<lambda>w. \<not> startswith w ''-'') [''mpi'', ''fast'']"
    by (simp add: startswith_def)
  have j: "join_sp [''mpi'', ''fast''] = ''mpi fast''"
    by (simp add: join_sp_def)
  have "py_split ''mpi  fast'' \<noteq> []
          \<and> list_all (\<lambda>w. \<not> startswith w ''-'') (py_split ''mpi  fast'')
        \<longrightarrow> tokenize_flags ''mpi  fast'' True = [(join_sp (py_split ''mpi  fast''), True)]"
    using tokenize_flags_spec [of "''mpi  fast''" True] by blast
  then have one: "tokenize_flags ''mpi  fast'' True = [(''mpi fast'', True)]"
    unfolding w using nf j by simp
  have b: "list_all isspace [CHR 0x20, CHR 0x09]"
    by (simp add: isspace_def)
  have "list_all isspace [CHR 0x20, CHR 0x09] \<longrightarrow> tokenize_flags [CHR 0x20, CHR 0x09] False = []"
    using tokenize_flags_spec [of "[CHR 0x20, CHR 0x09]" False] by blast
  then have none: "tokenize_flags [CHR 0x20, CHR 0x09] False = []"
    using b by simp
  have g: "flag_groups (py_split ''-I /a -g x  y'') = [[''-I'', ''/a''], [''-g'', ''x'', ''y'']]"
    by (simp add: py_split_def isspace_def is_flag_def startswith_def)
  have "tokenize_flags ''-I /a -g x  y'' False
          = map (\<lambda>g. (join_sp g, False)) (flag_groups (py_split ''-I /a -g x  y''))"
    using tokenize_flags_spec [of "''-I /a -g x  y''" False] by blast
  then have two: "tokenize_flags ''-I /a -g x  y'' False = [(''-I /a'', False), (''-g x y'', False)]"
    unfolding g by (simp add: join_sp_def)
  from w one b none two show ?thesis by simp
qed

text \<open>
  C6.  Let the scope be entered, so that the body runs in the environment \<open>env2\<close>.  If the
  call of the C driver with the version argument and the family's ignorable exit codes raises
  a \<^verbatim>\<open>ProcessError\<close>, the resolved real version is \<^verbatim>\<open>"unknown"\<close>; on a host whose executables
  behave as section 6 says, that is the case when the child process times out, cannot be
  started, or exits with a nonzero code that is not among the ignorable ones.  If the call
  returns and the family's version pattern finds no match in the output, the resolved real
  version is \<^verbatim>\<open>"unknown"\<close>; if it finds one, the first group is the real version.  The accessor
  \<^verbatim>\<open>real_version\<close> returns the declared version whenever the cached real version is empty or
  \<^verbatim>\<open>"unknown"\<close>, and the parsed cached version otherwise.
\<close>

theorem get_real_version_unknown:
  "(Executable ext (cc self) = Inr exe
      \<and> fst (compiler_environment ext self (\<lambda>e. (Inr e, e)) env) = Inr env2
      \<and> call ext exe [version_argument cls] (ignore_version_errors cls) env2 = Inl (ProcessError m)
     \<longrightarrow> fst (get_real_version ext cls self env) = Inr ''unknown'')
   \<and> (Executable ext (cc self) = Inr exe
      \<and> fst (compiler_environment ext self (\<lambda>e. (Inr e, e)) env) = Inr env2
      \<and> call ext exe [version_argument cls] (ignore_version_errors cls) env2 = Inr out
     \<longrightarrow> fst (get_real_version ext cls self env)
           = Inr (case version_search cls out of None \<Rightarrow> ''unknown'' | Some v \<Rightarrow> v))
   \<and> (Executable ext (cc self) = Inr exe
      \<and> fst (compiler_environment ext self (\<lambda>e. (Inr e, e)) env) = Inr env2
      \<and> call ext = spec_call spawn
      \<and> (spawn exe [version_argument cls] env2 = TimedOut
          \<or> spawn exe [version_argument cls] env2 = NotStarted
          \<or> (\<exists>code text. spawn exe [version_argument cls] env2 = Exited code text
                \<and> code \<noteq> 0 \<and> code \<notin> set (ignore_version_errors cls)))
     \<longrightarrow> fst (get_real_version ext cls self env) = Inr ''unknown'')
   \<and> (real_version_str entry = [] \<or> real_version_str entry = ''unknown''
     \<longrightarrow> real_version from_string version entry = version)
   \<and> (real_version_str entry \<noteq> [] \<and> real_version_str entry \<noteq> ''unknown''
     \<longrightarrow> real_version from_string version entry = from_string (real_version_str entry))"
proof -
  let ?body = "\<lambda>env'. case call ext exe [version_argument cls] (ignore_version_errors cls) env' of
                          Inl e \<Rightarrow> (Inl e, env')
                        | Inr output \<Rightarrow> (Inr (extract_version_from_output cls output), env')"
  have fails: "fst (get_real_version ext cls self env) = Inr ''unknown''"
    if exe: "Executable ext (cc self) = Inr exe"
      and sc: "fst (compiler_environment ext self (\<lambda>e. (Inr e, e)) env) = Inr env2"
      and ro: "call ext exe [version_argument cls] (ignore_version_errors cls) env2
                 = Inl (ProcessError m)" for m
  proof -
    have "fst (compiler_environment ext self ?body env) = fst (?body env2)"
      using sc by (rule compiler_environment_inner)
    also have "\<dots> = Inl (ProcessError m)" using ro by simp
    finally obtain env'' where
      "compiler_environment ext self ?body env = (Inl (ProcessError m), env'')"
      by (cases "compiler_environment ext self ?body env") auto
    then show ?thesis unfolding get_real_version_def exe by simp
  qed
  have runs: "fst (get_real_version ext cls self env)
           = Inr (case version_search cls out of None \<Rightarrow> ''unknown'' | Some v \<Rightarrow> v)"
    if exe: "Executable ext (cc self) = Inr exe"
      and sc: "fst (compiler_environment ext self (\<lambda>e. (Inr e, e)) env) = Inr env2"
      and ro: "call ext exe [version_argument cls] (ignore_version_errors cls) env2 = Inr out"
  proof -
    have "fst (compiler_environment ext self ?body env) = fst (?body env2)"
      using sc by (rule compiler_environment_inner)
    also have "\<dots> = Inr (extract_version_from_output cls out)" using ro by simp
    finally obtain env'' where
      "compiler_environment ext self ?body env = (Inr (extract_version_from_output cls out), env'')"
      by (cases "compiler_environment ext self ?body env") auto
    then show ?thesis
      unfolding get_real_version_def exe by (simp add: extract_version_from_output_def)
  qed
  have host: "fst (get_real_version ext cls self env) = Inr ''unknown''"
    if exe: "Executable ext (cc self) = Inr exe"
      and sc: "fst (compiler_environment ext self (\<lambda>e. (Inr e, e)) env) = Inr env2"
      and sp: "call ext = spec_call spawn"
      and bad: "spawn exe [version_argument cls] env2 = TimedOut
          \<or> spawn exe [version_argument cls] env2 = NotStarted
          \<or> (\<exists>code text. spawn exe [version_argument cls] env2 = Exited code text
                \<and> code \<noteq> 0 \<and> code \<notin> set (ignore_version_errors cls))"
  proof -
    from bad obtain m' where
      "run_outcome (ignore_version_errors cls) (spawn exe [version_argument cls] env2)
         = Inl (ProcessError m')"
      by (auto simp: run_outcome_def)
    then have "call ext exe [version_argument cls] (ignore_version_errors cls) env2
                 = Inl (ProcessError m')"
      unfolding sp by (simp add: spec_call_def)
    with exe sc show ?thesis by (rule fails)
  qed
  have acc1: "real_version_str entry = [] \<or> real_version_str entry = ''unknown''
     \<longrightarrow> real_version from_string version entry = version"
    by (auto simp: real_version_def)
  have acc2: "real_version_str entry \<noteq> [] \<and> real_version_str entry \<noteq> ''unknown''
     \<longrightarrow> real_version from_string version entry = from_string (real_version_str entry)"
    by (auto simp: real_version_def)
  have c1: "Executable ext (cc self) = Inr exe
      \<and> fst (compiler_environment ext self (\<lambda>e. (Inr e, e)) env) = Inr env2
      \<and> call ext exe [version_argument cls] (ignore_version_errors cls) env2 = Inl (ProcessError m)
     \<longrightarrow> fst (get_real_version ext cls self env) = Inr ''unknown''"
    using fails [of m] by (intro impI) (elim conjE)
  have c2: "Executable ext (cc self) = Inr exe
      \<and> fst (compiler_environment ext self (\<lambda>e. (Inr e, e)) env) = Inr env2
      \<and> call ext exe [version_argument cls] (ignore_version_errors cls) env2 = Inr out
     \<longrightarrow> fst (get_real_version ext cls self env)
           = Inr (case version_search cls out of None \<Rightarrow> ''unknown'' | Some v \<Rightarrow> v)"
    using runs by (intro impI) (elim conjE)
  have c3: "Executable ext (cc self) = Inr exe
      \<and> fst (compiler_environment ext self (\<lambda>e. (Inr e, e)) env) = Inr env2
      \<and> call ext = spec_call spawn
      \<and> (spawn exe [version_argument cls] env2 = TimedOut
          \<or> spawn exe [version_argument cls] env2 = NotStarted
          \<or> (\<exists>code text. spawn exe [version_argument cls] env2 = Exited code text
                \<and> code \<noteq> 0 \<and> code \<notin> set (ignore_version_errors cls)))
     \<longrightarrow> fst (get_real_version ext cls self env) = Inr ''unknown''"
    using host by (intro impI) (elim conjE)
  from c1 c2 c3 acc1 acc2 show ?thesis by (intro conjI)
qed

theorem get_real_version_unknown_witness:
  "Executable example_host (cc example_module_gcc) = Inr ''gcc''
   \<and> fst (compiler_environment example_host example_module_gcc (\<lambda>e. (Inr e, e)) [''PATH'' \<mapsto> ''/bin''])
       = Inr [''PATH'' \<mapsto> ''/bin'', ''LOADEDMODULES'' \<mapsto> ''gcc/9.3.0'', ''CC_MODE'' \<mapsto> ''strict'']
   \<and> call example_host ''gcc'' [version_argument example_family]
         (ignore_version_errors example_family)
         [''PATH'' \<mapsto> ''/bin'', ''LOADEDMODULES'' \<mapsto> ''gcc/9.3.0'', ''CC_MODE'' \<mapsto> ''strict'']
       = Inl (ProcessError ''Command exited with non-zero status'')
   \<and> fst (get_real_version example_host example_family example_module_gcc [''PATH'' \<mapsto> ''/bin''])
       = Inr ''unknown''
   \<and> fst (get_real_version example_host example_family example_gcc [''PATH'' \<mapsto> ''/bin''])
       = Inr ''9.3.0''
   \<and> fst (get_real_version example_host example_family (example_gcc\<lparr>cc := Some ''/opt/pgi/bin/pgcc''\<rparr>)
            [''PATH'' \<mapsto> ''/bin''])
       = Inr ''unknown''
   \<and> real_version (\<lambda>s. ''parsed '' @ s) ''declared 9.3.0''
         \<lparr>c_compiler_output = None, real_version_str = ''unknown''\<rparr> = ''declared 9.3.0''
   \<and> real_version (\<lambda>s. ''parsed '' @ s) ''declared 9.3.0''
         \<lparr>c_compiler_output = None, real_version_str = ''9.3.1''\<rparr> = ''parsed 9.3.1''"
proof -
  let ?env = "[''PATH'' \<mapsto> ''/bin'']"
  let ?env2 = "[''PATH'' \<mapsto> ''/bin'', ''LOADEDMODULES'' \<mapsto> ''gcc/9.3.0'', ''CC_MODE'' \<mapsto> ''strict'']"
  let ?spawn = "\<lambda>exe args env. if exe = ''/usr/bin/gcc'' then Exited 0 ''9.3.0''
                               else if exe = ''gcc'' then Exited 1 ''gcc: fatal error''
                               else NotStarted"
  let ?pgi = "example_gcc\<lparr>cc := Some ''/opt/pgi/bin/pgcc''\<rparr>"
  have e1: "Executable example_host (cc example_module_gcc) = Inr ''gcc''"
    by (simp add: example_host_def example_module_gcc_def example_gcc_def)
  have s1: "fst (compiler_environment example_host example_module_gcc (\<lambda>e. (Inr e, e)) ?env) = Inr ?env2"
    by (simp add: compiler_environment_def scope_body_def example_host_def example_module_gcc_def
          example_gcc_def)
  have p1: "call example_host ''gcc'' [version_argument example_family]
              (ignore_version_errors example_family) ?env2
            = Inl (ProcessError ''Command exited with non-zero status'')"
    by (simp add: example_host_def example_family_def spec_call_def run_outcome_def)
  note t1 = get_real_version_unknown
              [where ext = example_host and self = example_module_gcc and exe = "''gcc''"
                 and env = ?env and ?env2.0 = ?env2 and cls = example_family
                 and m = "''Command exited with non-zero status''"]
  have u: "fst (get_real_version example_host example_family example_module_gcc ?env) = Inr ''unknown''"
    by (rule mp [OF conjunct1 [OF t1]]) (intro conjI e1 s1 p1)
  have e2: "Executable example_host (cc example_gcc) = Inr ''/usr/bin/gcc''"
    by (simp add: example_host_def example_gcc_def)
  have s2: "fst (compiler_environment example_host example_gcc (\<lambda>e. (Inr e, e)) ?env) = Inr ?env"
    by (simp add: compiler_environment_def example_gcc_def)
  have p2: "call example_host ''/usr/bin/gcc'' [version_argument example_family]
              (ignore_version_errors example_family) ?env = Inr ''9.3.0''"
    by (simp add: example_host_def example_family_def spec_call_def run_outcome_def)
  note t2 = get_real_version_unknown
              [where ext = example_host and self = example_gcc and exe = "''/usr/bin/gcc''"
                 and env = ?env and ?env2.0 = ?env and cls = example_family and out = "''9.3.0''"]
  have "fst (get_real_version example_host example_family example_gcc ?env)
          = Inr (case version_search example_family ''9.3.0'' of None \<Rightarrow> ''unknown'' | Some v \<Rightarrow> v)"
    by (rule mp [OF conjunct1 [OF conjunct2 [OF t2]]]) (intro conjI e2 s2 p2)
  then have v: "fst (get_real_version example_host example_family example_gcc ?env) = Inr ''9.3.0''"
    by (simp add: example_family_def)
  have e3: "Executable example_host (cc ?pgi) = Inr ''/opt/pgi/bin/pgcc''"
    by (simp add: example_host_def)
  have s3: "fst (compiler_environment example_host ?pgi (\<lambda>e. (Inr e, e)) ?env) = Inr ?env"
    by (simp add: compiler_environment_def example_gcc_def)
  have h3: "call example_host = spec_call ?spawn"
    by (simp add: example_host_def)
  have b3: "?spawn ''/opt/pgi/bin/pgcc'' [version_argument example_family] ?env = TimedOut
          \<or> ?spawn ''/opt/pgi/bin/pgcc'' [version_argument example_family] ?env = NotStarted
          \<or> (\<exists>code text. ?spawn ''/opt/pgi/bin/pgcc'' [version_argument example_family] ?env
                             = Exited code text
                \<and> code \<noteq> 0 \<and> code \<notin> set (ignore_version_errors example_family))"
    by simp
  note t3 = get_real_version_unknown
              [where ext = example_host and self = ?pgi and exe = "''/opt/pgi/bin/pgcc''"
                 and env = ?env and ?env2.0 = ?env and cls = example_family and spawn = ?spawn]
  have n: "fst (get_real_version example_host example_family ?pgi ?env) = Inr ''unknown''"
    by (rule mp [OF conjunct1 [OF conjunct2 [OF conjunct2 [OF t3]]]]) (intro conjI e3 s3 h3 b3)
  let ?unk = "\<lparr>c_compiler_output = None, real_version_str = ''unknown''\<rparr>"
  let ?real = "\<lparr>c_compiler_output = None, real_version_str = ''9.3.1''\<rparr>"
  note t4 = get_real_version_unknown
            [where entry = ?unk and from_string = "\<lambda>s. ''parsed '' @ s"
               and version = "''declared 9.3.0''"]
  have a1: "real_version (\<lambda>s. ''parsed '' @ s) ''declared 9.3.0'' ?unk = ''declared 9.3.0''"
    by (rule mp [OF conjunct1 [OF conjunct2 [OF conjunct2 [OF conjunct2 [OF t4]]]]]) simp
  note t5 = get_real_version_unknown
            [where entry = ?real and from_string = "\<lambda>s. ''parsed '' @ s"
               and version = "''declared 9.3.0''"]
  have a2: "real_version (\<lambda>s. ''parsed '' @ s) ''declared 9.3.0'' ?real = ''parsed 9.3.1''"
    using mp [OF conjunct2 [OF conjunct2 [OF conjunct2 [OF conjunct2 [OF t5]]]]] by simp
  from e1 s1 p1 u v n a1 a2 show ?thesis by (intro conjI)
qed

text \<open>
  C7.  A cache file that is missing, that does not decode, or whose top level is not a
  dictionary is read as the empty dictionary; when the probe returns, \<^verbatim>\<open>get\<close> returns an
  entry whatever the file holds, and on such a file it runs the probe and writes a document
  that holds the new entry alone.  An entry is rejected exactly when it is no dictionary, or
  its \<^verbatim>\<open>real_version\<close> is not a string, or its \<^verbatim>\<open>c_compiler_output\<close> is neither a string nor
  null (a missing key reads as null).  When the value under the key is rejected, \<^verbatim>\<open>get\<close>
  deletes that value, runs the probe, stores the new value under the key and writes the
  dictionary back; the values under all other keys are as they were.
\<close>

theorem file_cache_corruption:
  "((\<forall>d. f \<noteq> Document (JObj d)) \<longrightarrow> load_data f = [])
   \<and> ((\<forall>d. store w \<noteq> Document (JObj d)) \<and> (\<forall>d. others (store w) \<noteq> Document (JObj d))
        \<longrightarrow> get others (Inr v) key w =
             (Inr \<lparr>c_compiler_output = fst v, real_version_str = snd v\<rparr>,
              \<lparr>store = Document (JObj [(key, value_dict v)]), probes = probes w + 1\<rparr>))
   \<and> (\<exists>e w'. get others (Inr v) key w = (Inr e, w'))
   \<and> (from_dict data = None \<longleftrightarrow>
        (\<forall>d. data \<noteq> JObj d)
        \<or> (\<exists>d. data = JObj d
              \<and> ((\<forall>s. dict_get d ''real_version'' \<noteq> JStr s)
                  \<or> (dict_get d ''c_compiler_output'' \<noteq> JNull
                      \<and> (\<forall>s. dict_get d ''c_compiler_output'' \<noteq> JStr s)))))
   \<and> (store w = Document (JObj d) \<and> map_of d key = Some bad \<and> from_dict bad = None
        \<longrightarrow> get (\<lambda>f. f) (Inr v) key w =
             (Inr \<lparr>c_compiler_output = fst v, real_version_str = snd v\<rparr>,
              \<lparr>store = Document (JObj (dict_set (dict_del d key) key (value_dict v))),
               probes = probes w + 1\<rparr>)
            \<and> map_of (dict_set (dict_del d key) key (value_dict v)) key = Some (value_dict v)
            \<and> (\<forall>k. k \<noteq> key \<longrightarrow>
                  map_of (dict_set (dict_del d key) key (value_dict v)) k = map_of d k))"
proof -
  have a: "(\<forall>d. f \<noteq> Document (JObj d)) \<longrightarrow> load_data f = []"
    using load_data_other [of f] by blast
  have b: "(\<forall>d. store w \<noteq> Document (JObj d)) \<and> (\<forall>d. others (store w) \<noteq> Document (JObj d))
        \<longrightarrow> get others (Inr v) key w =
             (Inr \<lparr>c_compiler_output = fst v, real_version_str = snd v\<rparr>,
              \<lparr>store = Document (JObj [(key, value_dict v)]), probes = probes w + 1\<rparr>)"
  proof
    assume h: "(\<forall>d. store w \<noteq> Document (JObj d)) \<and> (\<forall>d. others (store w) \<noteq> Document (JObj d))"
    then have e1: "load_data (store w) = []" and e2: "load_data (others (store w)) = []"
      using load_data_other by blast+
    have "fst (get_entry key (load_data (store w))) = None"
         "fst (get_entry key (load_data (others (store w)))) = None"
      unfolding e1 e2 by (simp_all add: get_entry_def)
    then have "get others (Inr v) key w =
             (Inr \<lparr>c_compiler_output = fst v, real_version_str = snd v\<rparr>,
              \<lparr>store = Document (JObj (dict_set (snd (get_entry key (load_data (others (store w)))))
                                       key (value_dict v))),
               probes = probes w + 1\<rparr>)"
      by (rule get_computed)
    then show "get others (Inr v) key w =
             (Inr \<lparr>c_compiler_output = fst v, real_version_str = snd v\<rparr>,
              \<lparr>store = Document (JObj [(key, value_dict v)]), probes = probes w + 1\<rparr>)"
      by (simp add: e2 get_entry_def)
  qed
  have c: "\<exists>e w'. get others (Inr v) key w = (Inr e, w')"
    by (rule get_never_fails)
  have d: "from_dict data = None \<longleftrightarrow>
        (\<forall>d. data \<noteq> JObj d)
        \<or> (\<exists>d. data = JObj d
              \<and> ((\<forall>s. dict_get d ''real_version'' \<noteq> JStr s)
                  \<or> (dict_get d ''c_compiler_output'' \<noteq> JNull
                      \<and> (\<forall>s. dict_get d ''c_compiler_output'' \<noteq> JStr s))))"
    by (rule from_dict_None_iff)
  have e: "store w = Document (JObj d) \<and> map_of d key = Some bad \<and> from_dict bad = None
        \<longrightarrow> get (\<lambda>f. f) (Inr v) key w =
             (Inr \<lparr>c_compiler_output = fst v, real_version_str = snd v\<rparr>,
              \<lparr>store = Document (JObj (dict_set (dict_del d key) key (value_dict v))),
               probes = probes w + 1\<rparr>)
            \<and> map_of (dict_set (dict_del d key) key (value_dict v)) key = Some (value_dict v)
            \<and> (\<forall>k. k \<noteq> key \<longrightarrow>
                  map_of (dict_set (dict_del d key) key (value_dict v)) k = map_of d k)"
  proof
    assume h: "store w = Document (JObj d) \<and> map_of d key = Some bad \<and> from_dict bad = None"
    then have ld: "load_data (store w) = d" by (simp add: load_data_def)
    have ge: "get_entry key d = (None, dict_del d key)"
      using h by (simp add: get_entry_def)
    have "get (\<lambda>f. f) (Inr v) key w =
             (Inr \<lparr>c_compiler_output = fst v, real_version_str = snd v\<rparr>,
              \<lparr>store = Document (JObj (dict_set (snd (get_entry key (load_data (store w))))
                                       key (value_dict v))),
               probes = probes w + 1\<rparr>)"
      by (rule get_computed) (simp_all add: ld ge)
    then show "get (\<lambda>f. f) (Inr v) key w =
             (Inr \<lparr>c_compiler_output = fst v, real_version_str = snd v\<rparr>,
              \<lparr>store = Document (JObj (dict_set (dict_del d key) key (value_dict v))),
               probes = probes w + 1\<rparr>)
            \<and> map_of (dict_set (dict_del d key) key (value_dict v)) key = Some (value_dict v)
            \<and> (\<forall>k. k \<noteq> key \<longrightarrow>
                  map_of (dict_set (dict_del d key) key (value_dict v)) k = map_of d k)"
      by (simp add: ld ge map_of_dict_set map_of_dict_del)
  qed
  from a b c d e show ?thesis by (intro conjI)
qed

theorem file_cache_corruption_witness:
  "load_data Malformed = [] \<and> load_data (Document (JArr [JStr ''x''])) = []
   \<and> get (\<lambda>f. f) (Inr (None, ''unknown'')) ''d7932218'' \<lparr>store = Malformed, probes = 0\<rparr>
       = (Inr \<lparr>c_compiler_output = None, real_version_str = ''unknown''\<rparr>,
          \<lparr>store = Document (JObj [(''d7932218'', value_dict (None, ''unknown''))]), probes = 1\<rparr>)
   \<and> from_dict (JObj [(''real_version'', JNum 9)]) = None
   \<and> from_dict (JObj [(''real_version'', JStr ''9.3.0''), (''c_compiler_output'', JArr [])]) = None
   \<and> from_dict (JStr ''9.3.0'') = None
   \<and> get (\<lambda>f. f) (Inr (Some ''verbose'', ''9.3.0'')) ''d7932218''
          \<lparr>store = Document (JObj [(''d7932218'', JObj [(''real_version'', JNum 9)]),
                                     (''0a1b'', JStr ''also malformed'')]),
           probes = 0\<rparr>
       = (Inr \<lparr>c_compiler_output = Some ''verbose'', real_version_str = ''9.3.0''\<rparr>,
          \<lparr>store = Document (JObj [(''0a1b'', JStr ''also malformed''),
                                     (''d7932218'', value_dict (Some ''verbose'', ''9.3.0''))]),
           probes = 1\<rparr>)"
proof -
  let ?k = "''d7932218''"
  have l1: "load_data Malformed = []"
    by (rule mp [OF conjunct1 [OF file_cache_corruption [where f = Malformed]]]) simp
  have l2: "load_data (Document (JArr [JStr ''x''])) = []"
    by (rule mp [OF conjunct1 [OF file_cache_corruption [where f = "Document (JArr [JStr ''x''])"]]])
       simp
  note t1 = file_cache_corruption
              [where w = "\<lparr>store = Malformed, probes = 0\<rparr>" and others = "\<lambda>f. f"
                 and v = "(None, ''unknown'')" and key = ?k]
  have g1: "get (\<lambda>f. f) (Inr (None, ''unknown'')) ?k \<lparr>store = Malformed, probes = 0\<rparr>
       = (Inr \<lparr>c_compiler_output = None, real_version_str = ''unknown''\<rparr>,
          \<lparr>store = Document (JObj [(?k, value_dict (None, ''unknown''))]), probes = 1\<rparr>)"
    using mp [OF conjunct1 [OF conjunct2 [OF t1]]] by simp
  have f1: "from_dict (JObj [(''real_version'', JNum 9)]) = None"
    by (simp add: from_dict_def dict_get_def)
  have f2: "from_dict (JObj [(''real_version'', JStr ''9.3.0''), (''c_compiler_output'', JArr [])]) = None"
    by (simp add: from_dict_def dict_get_def)
  have f3: "from_dict (JStr ''9.3.0'') = None"
    by (simp add: from_dict_def)
  let ?d = "[(?k, JObj [(''real_version'', JNum 9)]), (''0a1b'', JStr ''also malformed'')]"
  let ?w = "\<lparr>store = Document (JObj ?d), probes = 0\<rparr>"
  note t2 = file_cache_corruption
              [where w = ?w and v = "(Some ''verbose'', ''9.3.0'')" and key = ?k and d = ?d
                 and bad = "JObj [(''real_version'', JNum 9)]"]
  have h: "store ?w = Document (JObj ?d) \<and> map_of ?d ?k = Some (JObj [(''real_version'', JNum 9)])
             \<and> from_dict (JObj [(''real_version'', JNum 9)]) = None"
    using f1 by simp
  have g2: "get (\<lambda>f. f) (Inr (Some ''verbose'', ''9.3.0'')) ?k ?w
       = (Inr \<lparr>c_compiler_output = Some ''verbose'', real_version_str = ''9.3.0''\<rparr>,
          \<lparr>store = Document (JObj [(''0a1b'', JStr ''also malformed''),
                                     (?k, value_dict (Some ''verbose'', ''9.3.0''))]),
           probes = 1\<rparr>)"
    using conjunct1 [OF mp [OF conjunct2 [OF conjunct2 [OF conjunct2 [OF conjunct2 [OF t2]]]] h]]
    by (simp add: dict_del_def)
  from l1 l2 g1 f1 f2 f3 g2 show ?thesis by (intro conjI)
qed


text \<open>
  C8, as amended.  A line that \<^verbatim>\<open>_LINKER_LINE\<close> matches and \<^verbatim>\<open>_LINKER_LINE_IGNORE\<close> does
  not is split at whitespace and its words are scanned from left to right:
  a bare \<^verbatim>\<open>-L\<close> or \<^verbatim>\<open>-Y\<close> makes the next word a directory, unless that word is itself a
  bare \<^verbatim>\<open>-L\<close> or \<^verbatim>\<open>-Y\<close>;
  any other word contributes the \<^verbatim>\<open>dir\<close> group of \<^verbatim>\<open>_LINK_DIR_ARG\<close> and then that of
  \<^verbatim>\<open>_LIBPATH_ARG\<close>, where they match;
  \<^verbatim>\<open>-L\<close>, one character and a colon, followed by a path that starts with \<^verbatim>\<open>/\<close> or
  \<^verbatim>\<open>\\<close>, yields that path, and so does \<^verbatim>\<open>-L\<close> followed by such a path when the path does not
  itself read as a character, a colon and a separator;
  \<^verbatim>\<open>-\<close> or \<^verbatim>\<open>/\<close>, then \<^verbatim>\<open>LIBPATH:\<close> or \<^verbatim>\<open>libpath:\<close>, then a path, yields that path, and no
  other spelling of the keyword matches \<^verbatim>\<open>_LIBPATH_ARG\<close>;
  the candidates are mapped through \<^verbatim>\<open>os.path.abspath\<close> and every normalized path is kept
  at its first occurrence only, in first-seen order.
  With the POSIX \<^verbatim>\<open>abspath\<close>, the line
  \<^verbatim>\<open>  /usr/bin/ld ... -L/opt/lib -L /opt/lib2 foo.o\<close> yields \<^verbatim>\<open>/opt/lib\<close> then \<^verbatim>\<open>/opt/lib2\<close>,
  and still each once when \<^verbatim>\<open>-L/opt/lib\<close> is repeated.
\<close>

theorem parse_link_paths_tokens:
  "(re_match LINKER_LINE line \<and> \<not> re_match LINKER_LINE_IGNORE line
      \<longrightarrow> link_line_dirs line = scan_args False (py_split line))
   \<and> ((k = ''-L'' \<or> k = ''-Y'') \<and> d \<noteq> ''-L'' \<and> d \<noteq> ''-Y''
      \<longrightarrow> scan_args b (k # d # rest) = d # scan_args False rest)
   \<and> (arg \<noteq> ''-L'' \<and> arg \<noteq> ''-Y''
      \<longrightarrow> scan_args False (arg # rest)
          = opt_list (LINK_DIR_ARG arg) @ opt_list (LIBPATH_ARG arg) @ scan_args False rest)
   \<and> (c \<noteq> CHR 0x0A \<and> s \<in> set seps \<and> CHR 0x0A \<notin> set q
      \<longrightarrow> LINK_DIR_ARG (''-L'' @ [c, CHR '':''] @ s # q) = Some (s # q))
   \<and> (s \<in> set seps \<and> CHR 0x0A \<notin> set q
        \<and> \<not> (\<exists>s' r. q = CHR '':'' # s' # r \<and> s' \<in> set seps)
      \<longrightarrow> LINK_DIR_ARG (''-L'' @ s # q) = Some (s # q))
   \<and> (\<not> startswith arg ''-L'' \<longrightarrow> LINK_DIR_ARG arg = None)
   \<and> ((x = CHR ''-'' \<or> x = CHR ''/'') \<and> (kw = ''LIBPATH'' \<or> kw = ''libpath'')
        \<and> CHR 0x0A \<notin> set p
      \<longrightarrow> LIBPATH_ARG (x # kw @ '':'' @ p) = Some p)
   \<and> (LIBPATH_ARG arg \<noteq> None
      \<longrightarrow> startswith arg ''-LIBPATH:'' \<or> startswith arg ''/LIBPATH:''
          \<or> startswith arg ''-libpath:'' \<or> startswith arg ''/libpath:'')
   \<and> distinct (parse_link_paths abspath string)
   \<and> set (parse_link_paths abspath string) = abspath ` set (raw_link_dirs string)
   \<and> dedup_from [] (ds @ [n]) = dedup_from [] ds @ (if n \<in> set ds then [] else [n])
   \<and> parse_link_paths (posix_abspath cwd) ''  /usr/bin/ld ... -L/opt/lib -L /opt/lib2 foo.o''
        = [''/opt/lib'', ''/opt/lib2'']
   \<and> parse_link_paths (posix_abspath cwd)
          ''  /usr/bin/ld ... -L/opt/lib -L /opt/lib2 foo.o -L/opt/lib''
        = [''/opt/lib'', ''/opt/lib2'']"
proof -
  have accepted: "re_match LINKER_LINE line \<and> \<not> re_match LINKER_LINE_IGNORE line
      \<longrightarrow> link_line_dirs line = scan_args False (py_split line)"
    by (simp add: link_line_dirs_def)
  have bare: "(k = ''-L'' \<or> k = ''-Y'') \<and> d \<noteq> ''-L'' \<and> d \<noteq> ''-Y''
      \<longrightarrow> scan_args b (k # d # rest) = d # scan_args False rest"
    using scan_args_bare [of k d b rest] by blast
  have other: "arg \<noteq> ''-L'' \<and> arg \<noteq> ''-Y''
      \<longrightarrow> scan_args False (arg # rest)
          = opt_list (LINK_DIR_ARG arg) @ opt_list (LIBPATH_ARG arg) @ scan_args False rest"
    by simp
  have drive: "c \<noteq> CHR 0x0A \<and> s \<in> set seps \<and> CHR 0x0A \<notin> set q
      \<longrightarrow> LINK_DIR_ARG (''-L'' @ [c, CHR '':''] @ s # q) = Some (s # q)"
    using LINK_DIR_ARG_drive [of c s q] by blast
  have plain: "s \<in> set seps \<and> CHR 0x0A \<notin> set q
        \<and> \<not> (\<exists>s' r. q = CHR '':'' # s' # r \<and> s' \<in> set seps)
      \<longrightarrow> LINK_DIR_ARG (''-L'' @ s # q) = Some (s # q)"
    using LINK_DIR_ARG_plain [of s q] by blast
  have nodir: "\<not> startswith arg ''-L'' \<longrightarrow> LINK_DIR_ARG arg = None"
    using LINK_DIR_ARG_None [of arg] by blast
  have libpath: "(x = CHR ''-'' \<or> x = CHR ''/'') \<and> (kw = ''LIBPATH'' \<or> kw = ''libpath'')
        \<and> CHR 0x0A \<notin> set p
      \<longrightarrow> LIBPATH_ARG (x # kw @ '':'' @ p) = Some p"
    using LIBPATH_ARG_spelled [of x kw p] by blast
  have only: "LIBPATH_ARG arg \<noteq> None
      \<longrightarrow> startswith arg ''-LIBPATH:'' \<or> startswith arg ''/LIBPATH:''
          \<or> startswith arg ''-libpath:'' \<or> startswith arg ''/libpath:''"
    using LIBPATH_ARG_only [of arg] by blast
  have dist: "distinct (parse_link_paths abspath string)"
    by (simp add: parse_link_paths_def distinct_dedup_from)
  have elems: "set (parse_link_paths abspath string) = abspath ` set (raw_link_dirs string)"
    by (simp add: parse_link_paths_def set_dedup_from)
  have first: "dedup_from [] (ds @ [n]) = dedup_from [] ds @ (if n \<in> set ds then [] else [n])"
    by (simp add: dedup_from_snoc)
  have abs1: "posix_abspath cwd ''/opt/lib'' = ''/opt/lib''"
    by (simp add: posix_abspath_def posix_normpath_def startswith_def)
  have abs2: "posix_abspath cwd ''/opt/lib2'' = ''/opt/lib2''"
    by (simp add: posix_abspath_def posix_normpath_def startswith_def)
  have raw1: "raw_link_dirs ''  /usr/bin/ld ... -L/opt/lib -L /opt/lib2 foo.o''
                = [''/opt/lib'', ''/opt/lib2'']"
    by code_simp
  have raw2: "raw_link_dirs ''  /usr/bin/ld ... -L/opt/lib -L /opt/lib2 foo.o -L/opt/lib''
                = [''/opt/lib'', ''/opt/lib2'', ''/opt/lib'']"
    by code_simp
  have ex1: "parse_link_paths (posix_abspath cwd) ''  /usr/bin/ld ... -L/opt/lib -L /opt/lib2 foo.o''
        = [''/opt/lib'', ''/opt/lib2'']"
    unfolding parse_link_paths_def raw1 by (simp add: abs1 abs2)
  have ex2: "parse_link_paths (posix_abspath cwd)
          ''  /usr/bin/ld ... -L/opt/lib -L /opt/lib2 foo.o -L/opt/lib''
        = [''/opt/lib'', ''/opt/lib2'']"
    unfolding parse_link_paths_def raw2 by (simp add: abs1 abs2)
  from accepted bare other drive plain nodir libpath only dist elems first ex1 ex2
  show ?thesis by (intro conjI)
qed

theorem parse_link_paths_tokens_witness:
  "re_match LINKER_LINE ''ld -Y /opt/y -LC:/w /LIBPATH:/m -L /opt/y''
   \<and> \<not> re_match LINKER_LINE_IGNORE ''ld -Y /opt/y -LC:/w /LIBPATH:/m -L /opt/y''
   \<and> link_line_dirs ''ld -Y /opt/y -LC:/w /LIBPATH:/m -L /opt/y''
        = scan_args False [''ld'', ''-Y'', ''/opt/y'', ''-LC:/w'', ''/LIBPATH:/m'', ''-L'', ''/opt/y'']
   \<and> scan_args False [''-Y'', ''/opt/y''] = [''/opt/y'']
   \<and> LINK_DIR_ARG ''-LC:/w'' = Some ''/w''
   \<and> LINK_DIR_ARG ''-L/opt/lib'' = Some ''/opt/lib''
   \<and> LINK_DIR_ARG ''ld'' = None
   \<and> LIBPATH_ARG ''/LIBPATH:/m'' = Some ''/m''
   \<and> LIBPATH_ARG ''-libpath:/m'' = Some ''/m''
   \<and> startswith ''/LIBPATH:/m'' ''/LIBPATH:''
   \<and> scan_args False [''ld''] = []"
proof -
  let ?l = "''ld -Y /opt/y -LC:/w /LIBPATH:/m -L /opt/y''"
  have m: "re_match LINKER_LINE ?l" by code_simp
  have i: "\<not> re_match LINKER_LINE_IGNORE ?l" by code_simp
  have w: "py_split ?l = [''ld'', ''-Y'', ''/opt/y'', ''-LC:/w'', ''/LIBPATH:/m'', ''-L'', ''/opt/y'']"
    by code_simp
  have a: "link_line_dirs ?l = scan_args False (py_split ?l)"
    using parse_link_paths_tokens [of ?l] m i by blast
  have b: "scan_args False (''-Y'' # ''/opt/y'' # []) = ''/opt/y'' # scan_args False []"
    using parse_link_paths_tokens [of _ "''-Y''" "''/opt/y''" False "[]"] by simp
  have c: "LINK_DIR_ARG (''-L'' @ [CHR ''C'', CHR '':''] @ CHR ''/'' # ''w'') = Some (CHR ''/'' # ''w'')"
    using parse_link_paths_tokens [of _ _ _ _ _ _ "CHR ''C''" "CHR ''/''" "''w''"]
    by (simp add: seps_def)
  have d: "LINK_DIR_ARG (''-L'' @ CHR ''/'' # ''opt/lib'') = Some (CHR ''/'' # ''opt/lib'')"
    using parse_link_paths_tokens [of _ _ _ _ _ _ _ "CHR ''/''" "''opt/lib''"]
    by (simp add: seps_def)
  have e: "LINK_DIR_ARG ''ld'' = None"
    using parse_link_paths_tokens [of _ _ _ _ _ "''ld''"] by (simp add: startswith_def)
  have f: "LIBPATH_ARG (CHR ''/'' # ''LIBPATH'' @ '':'' @ ''/m'') = Some ''/m''"
    using parse_link_paths_tokens [of _ _ _ _ _ _ _ _ _ "CHR ''/''" "''LIBPATH''" "''/m''"] by simp
  have g: "LIBPATH_ARG (CHR ''-'' # ''libpath'' @ '':'' @ ''/m'') = Some ''/m''"
    using parse_link_paths_tokens [of _ _ _ _ _ _ _ _ _ "CHR ''-''" "''libpath''" "''/m''"] by simp
  have h: "LIBPATH_ARG ''ld'' = None" by code_simp
  have j: "scan_args False (''ld'' # []) = opt_list (LINK_DIR_ARG ''ld'') @ opt_list (LIBPATH_ARG ''ld'') @ scan_args False []"
    using parse_link_paths_tokens [of _ _ _ _ _ "''ld''"] by simp
  have s: "startswith ''/LIBPATH:/m'' ''/LIBPATH:''" by (simp add: startswith_def)
  from m i a b c d e f g s j show ?thesis unfolding w e h by simp
qed

text \<open>
  C8 as stated fails where it calls the match of \<^verbatim>\<open>/LIBPATH:\<close> and \<^verbatim>\<open>-libpath:\<close>
  case-insensitive: the pattern is compiled without \<^verbatim>\<open>re.IGNORECASE\<close> and names two
  spellings.  On the accepted linker line \<^verbatim>\<open>link.exe /LibPath:/opt/lib\<close> nothing is extracted.
\<close>

theorem libpath_mixed_case_counterexample:
  "re_match LINKER_LINE ''link.exe /LibPath:/opt/lib''
   \<and> \<not> re_match LINKER_LINE_IGNORE ''link.exe /LibPath:/opt/lib''
   \<and> LIBPATH_ARG ''/LibPath:/opt/lib'' = None
   \<and> parse_link_paths (posix_abspath ''/'') ''link.exe /LibPath:/opt/lib'' = []"
  by code_simp

text \<open>
  C9, as amended.  Outside a block, a line that begins with \<^verbatim>\<open>Library search paths:\<close>
  (whatever follows on it) enters the block, and no other line does; inside the block every
  line that begins with a tab is captured verbatim without that tab, and the first line that
  does not begin with a tab ends the block.  The header line and the line that ends the block
  are still read as possible linker lines; the captured lines are not.
\<close>

theorem library_search_paths_block:
  "(startswith h ''Library search paths:'' \<and> \<not> startswith l [CHR 0x09]
      \<longrightarrow> scan_lines False (h # map (\<lambda>d. CHR 0x09 # d) ds @ l # rest)
            = link_line_dirs h @ ds @ link_line_dirs l @ scan_lines False rest)
   \<and> (startswith h ''Library search paths:''
      \<longrightarrow> scan_lines False (h # map (\<lambda>d. CHR 0x09 # d) ds) = link_line_dirs h @ ds)
   \<and> (\<not> startswith l ''Library search paths:''
      \<longrightarrow> scan_lines False (l # rest) = link_line_dirs l @ scan_lines False rest)"
proof -
  have blk: "scan_lines True (map (\<lambda>d. CHR 0x09 # d) ds @ tail) = ds @ scan_lines True tail" for tail
    by (rule scan_lines_block)
  have enter: "startswith h ''Library search paths:''
      \<Longrightarrow> scan_lines False (h # tail) = link_line_dirs h @ scan_lines True tail" for tail
    by simp
  have a: "startswith h ''Library search paths:'' \<and> \<not> startswith l [CHR 0x09]
      \<longrightarrow> scan_lines False (h # map (\<lambda>d. CHR 0x09 # d) ds @ l # rest)
            = link_line_dirs h @ ds @ link_line_dirs l @ scan_lines False rest"
    using enter [of "map (\<lambda>d. CHR 0x09 # d) ds @ l # rest"] blk [of "l # rest"]
          scan_lines_block_end [of l rest]
    by simp
  have b: "startswith h ''Library search paths:''
      \<longrightarrow> scan_lines False (h # map (\<lambda>d. CHR 0x09 # d) ds) = link_line_dirs h @ ds"
    using enter [of "map (\<lambda>d. CHR 0x09 # d) ds"] blk [of "[]"] by simp
  have c: "\<not> startswith l ''Library search paths:''
      \<longrightarrow> scan_lines False (l # rest) = link_line_dirs l @ scan_lines False rest"
    by simp
  from a b c show ?thesis by (intro conjI)
qed

theorem library_search_paths_block_witness:
  "startswith ''Library search paths:'' ''Library search paths:''
   \<and> \<not> startswith ''ld -L/opt/z'' [CHR 0x09]
   \<and> scan_lines False [''Library search paths:'', CHR 0x09 # ''/opt/x'', CHR 0x09 # ''rel dir'',
                        ''ld -L/opt/z'', CHR 0x09 # ''/opt/late'']
        = [''/opt/x'', ''rel dir'', ''/opt/z'']
   \<and> scan_lines False [''Library search paths:'', CHR 0x09 # ''/opt/x''] = [''/opt/x'']
   \<and> \<not> startswith (CHR 0x09 # ''/opt/late'') ''Library search paths:''
   \<and> scan_lines False [CHR 0x09 # ''/opt/late''] = []"
proof -
  have h: "startswith ''Library search paths:'' ''Library search paths:''"
    by (simp add: startswith_def)
  have l: "\<not> startswith ''ld -L/opt/z'' [CHR 0x09]"
    by (simp add: startswith_def)
  have t: "\<not> startswith (CHR 0x09 # ''/opt/late'') ''Library search paths:''"
    by (simp add: startswith_def)
  have d0: "link_line_dirs ''Library search paths:'' = []" by code_simp
  have d1: "link_line_dirs ''ld -L/opt/z'' = [''/opt/z'']" by code_simp
  have d2: "link_line_dirs (CHR 0x09 # ''/opt/late'') = []" by code_simp
  have c: "scan_lines False [CHR 0x09 # ''/opt/late''] = []"
    using library_search_paths_block [of _ "CHR 0x09 # ''/opt/late''" _ "[]"] t d2 by simp
  have a: "scan_lines False (''Library search paths:'' # map (\<lambda>d. CHR 0x09 # d) [''/opt/x'', ''rel dir'']
              @ ''ld -L/opt/z'' # [CHR 0x09 # ''/opt/late''])
        = link_line_dirs ''Library search paths:'' @ [''/opt/x'', ''rel dir'']
            @ link_line_dirs ''ld -L/opt/z'' @ scan_lines False [CHR 0x09 # ''/opt/late'']"
    using library_search_paths_block
            [of "''Library search paths:''" "''ld -L/opt/z''" "[''/opt/x'', ''rel dir'']"
                "[CHR 0x09 # ''/opt/late'']"] h l
    by blast
  have b: "scan_lines False (''Library search paths:'' # map (\<lambda>d. CHR 0x09 # d) [''/opt/x''])
        = link_line_dirs ''Library search paths:'' @ [''/opt/x'']"
    using library_search_paths_block [of "''Library search paths:''" _ "[''/opt/x'']"] h
    by blast
  from a b c h l t show ?thesis unfolding d0 d1 by simp
qed

text \<open>
  C9 as stated fails where it asks for a line exactly matching the header: the test is
  \<^verbatim>\<open>line.startswith("Library search paths:")\<close>.  A header line with trailing text opens the
  block, and the tab line after it is captured; the same tab line alone yields nothing.
\<close>

theorem library_search_paths_header_counterexample:
  "''Library search paths: (framework)'' \<noteq> ''Library search paths:''
   \<and> raw_link_dirs (''Library search paths: (framework)'' @ [CHR 0x0A, CHR 0x09] @ ''/opt/x'')
        = [''/opt/x'']
   \<and> raw_link_dirs ([CHR 0x09] @ ''/opt/x'') = []"
  by code_simp

text \<open>
  C10.  The declared executables are the paths among \<^verbatim>\<open>cc\<close>, \<^verbatim>\<open>cxx\<close>, \<^verbatim>\<open>f77\<close>, \<^verbatim>\<open>fc\<close> that are
  neither \<^verbatim>\<open>None\<close> nor empty (Python's truth test on the path).  Once the scope is entered,
  with the body running in the environment \<open>env2\<close>, \<^verbatim>\<open>verify_executables\<close> returns without an
  error exactly when every declared executable is accessible in \<open>env2\<close>, and otherwise raises
  one \<^verbatim>\<open>CompilerAccessError\<close> that lists every declared executable that is not accessible, in
  the order \<^verbatim>\<open>cc\<close>, \<^verbatim>\<open>cxx\<close>, \<^verbatim>\<open>f77\<close>, \<^verbatim>\<open>fc\<close>.  An absolute path is accessible when it is a file
  with execute permission; any other name is accessible when \<^verbatim>\<open>which_string\<close> resolves it in
  \<open>env2\<close> to such a file.
\<close>

theorem verify_executables_reports_all:
  "(fst (compiler_environment ext self (\<lambda>e. (Inr e, e)) env) = Inr env2 \<longrightarrow>
      fst (verify_executables ext str_spec self env)
        = (if list_all (accessible_exe ext env2) (declared_executables self) then Inr ()
           else Inl (CompilerAccessError (str_spec (spec self))
                      (filter (\<lambda>p. \<not> accessible_exe ext env2 p) (declared_executables self)))))
   \<and> set (declared_executables self)
        = {p. p \<noteq> [] \<and> Some p \<in> {cc self, cxx self, f77 self, fc self}}
   \<and> (accessible_exe ext env2 p \<longleftrightarrow>
        (if isabs ext p then isfile ext p \<and> access_x ext p
         else (\<exists>q. which_string ext p env2 = Some q \<and> q \<noteq> [] \<and> isfile ext q \<and> access_x ext q)))"
proof -
  let ?body = "\<lambda>env'. let missing = filter (\<lambda>cmp. \<not> accessible_exe ext env' cmp) (declared_executables self)
               in if missing \<noteq> [] then (Inl (CompilerAccessError (str_spec (spec self)) missing), env')
                  else (Inr (), env')"
  have a: "fst (verify_executables ext str_spec self env)
        = (if list_all (accessible_exe ext env2) (declared_executables self) then Inr ()
           else Inl (CompilerAccessError (str_spec (spec self))
                      (filter (\<lambda>p. \<not> accessible_exe ext env2 p) (declared_executables self))))"
    if sc: "fst (compiler_environment ext self (\<lambda>e. (Inr e, e)) env) = Inr env2"
  proof -
    have "fst (verify_executables ext str_spec self env) = fst (?body env2)"
      unfolding verify_executables_def using sc by (rule compiler_environment_inner)
    also have "\<dots> = (if list_all (accessible_exe ext env2) (declared_executables self) then Inr ()
           else Inl (CompilerAccessError (str_spec (spec self))
                      (filter (\<lambda>p. \<not> accessible_exe ext env2 p) (declared_executables self))))"
      by (auto simp: Let_def filter_empty_conv list_all_iff)
    finally show ?thesis .
  qed
  have b: "set (declared_executables self)
        = {p. p \<noteq> [] \<and> Some p \<in> {cc self, cxx self, f77 self, fc self}}"
    unfolding declared_executables_def
    by (cases "cc self"; cases "cxx self"; cases "f77 self"; cases "fc self") auto
  have c: "accessible_exe ext env2 p \<longleftrightarrow>
        (if isabs ext p then isfile ext p \<and> access_x ext p
         else (\<exists>q. which_string ext p env2 = Some q \<and> q \<noteq> [] \<and> isfile ext q \<and> access_x ext q))"
    by (auto simp: accessible_exe_def split: option.splits)
  from a b c show ?thesis by blast
qed

theorem verify_executables_reports_all_witness:
  "fst (compiler_environment example_host example_module_gcc (\<lambda>e. (Inr e, e)) [''PATH'' \<mapsto> ''/bin''])
       = Inr [''PATH'' \<mapsto> ''/bin'', ''LOADEDMODULES'' \<mapsto> ''gcc/9.3.0'', ''CC_MODE'' \<mapsto> ''strict'']
   \<and> declared_executables example_module_gcc = [''gcc'', ''/opt/gcc/bin/g++'', ''gfortran'', ''gfortran'']
   \<and> accessible_exe example_host
        [''PATH'' \<mapsto> ''/bin'', ''LOADEDMODULES'' \<mapsto> ''gcc/9.3.0'', ''CC_MODE'' \<mapsto> ''strict''] ''gcc''
   \<and> fst (verify_executables example_host (\<lambda>s. s) example_module_gcc [''PATH'' \<mapsto> ''/bin''])
       = Inl (CompilerAccessError ''gcc@9.3.0'' [''/opt/gcc/bin/g++'', ''gfortran'', ''gfortran''])
   \<and> fst (verify_executables example_host (\<lambda>s. s) example_gcc [''PATH'' \<mapsto> ''/bin'']) = Inr ()"
proof -
  let ?env = "[''PATH'' \<mapsto> ''/bin'']"
  let ?env2 = "[''PATH'' \<mapsto> ''/bin'', ''LOADEDMODULES'' \<mapsto> ''gcc/9.3.0'', ''CC_MODE'' \<mapsto> ''strict'']"
  have s1: "fst (compiler_environment example_host example_module_gcc (\<lambda>e. (Inr e, e)) ?env) = Inr ?env2"
    by (simp add: compiler_environment_def scope_body_def example_host_def example_module_gcc_def
          example_gcc_def)
  have d1: "declared_executables example_module_gcc
              = [''gcc'', ''/opt/gcc/bin/g++'', ''gfortran'', ''gfortran'']"
    by (simp add: declared_executables_def example_module_gcc_def example_gcc_def)
  have acc: "accessible_exe example_host ?env2 ''gcc''"
       "\<not> accessible_exe example_host ?env2 ''/opt/gcc/bin/g++''"
       "\<not> accessible_exe example_host ?env2 ''gfortran''"
    by (simp_all add: accessible_exe_def example_host_def startswith_def)
  have "fst (verify_executables example_host (\<lambda>s. s) example_module_gcc ?env)
        = (if list_all (accessible_exe example_host ?env2) (declared_executables example_module_gcc)
           then Inr ()
           else Inl (CompilerAccessError (spec example_module_gcc)
                      (filter (\<lambda>p. \<not> accessible_exe example_host ?env2 p)
                         (declared_executables example_module_gcc))))"
    using verify_executables_reports_all
            [of example_host example_module_gcc ?env ?env2 "\<lambda>s. s"] s1
    by blast
  then have r1: "fst (verify_executables example_host (\<lambda>s. s) example_module_gcc ?env)
       = Inl (CompilerAccessError ''gcc@9.3.0'' [''/opt/gcc/bin/g++'', ''gfortran'', ''gfortran''])"
    unfolding d1 by (simp add: acc example_module_gcc_def example_gcc_def)
  have s2: "fst (compiler_environment example_host example_gcc (\<lambda>e. (Inr e, e)) ?env) = Inr ?env"
    by (simp add: compiler_environment_def example_gcc_def)
  have d2: "declared_executables example_gcc = [''/usr/bin/gcc'', ''/usr/bin/g++'']"
    by (simp add: declared_executables_def example_gcc_def)
  have acc2: "accessible_exe example_host ?env ''/usr/bin/gcc''"
       "accessible_exe example_host ?env ''/usr/bin/g++''"
    by (simp_all add: accessible_exe_def example_host_def startswith_def)
  have "fst (verify_executables example_host (\<lambda>s. s) example_gcc ?env)
        = (if list_all (accessible_exe example_host ?env) (declared_executables example_gcc)
           then Inr ()
           else Inl (CompilerAccessError (spec example_gcc)
                      (filter (\<lambda>p. \<not> accessible_exe example_host ?env p)
                         (declared_executables example_gcc))))"
    using verify_executables_reports_all
            [of example_host example_gcc ?env ?env "\<lambda>s. s"] s2
    by blast
  then have r2: "fst (verify_executables example_host (\<lambda>s. s) example_gcc ?env) = Inr ()"
    unfolding d2 by (simp add: acc2)
  from s1 d1 acc(1) r1 r2 show ?thesis by (intro conjI)
qed



end
